theory Spec2Isabelle
  imports Complex_Main "HOL-Library.Word"
begin

unbundle bit_operations_syntax

section \<open>The label control of the FreeType label plugin\<close>

text \<open>
  A shallow embedding of \<^verbatim>\<open>src/plugins/controls/label-freetype/plugin.c\<close>.
  The FreeType library, the pixel display and the pixel buffer are external to the
  plugin; what the plugin reads from them and the calls it makes to them are made
  explicit below.
\<close>

subsection \<open>C integers\<close>

text \<open>
  Integer values are mathematical integers and every conversion to a C type is written
  out (LP64: \<^verbatim>\<open>long\<close> and \<^verbatim>\<open>unsigned long\<close> have 64 bits, \<^verbatim>\<open>FT_Int\<close> is a
  32-bit \<^verbatim>\<open>int\<close>, \<^verbatim>\<open>FT_Pos\<close> is a \<^verbatim>\<open>long\<close>). Signed arithmetic wraps in two's
  complement, \<^verbatim>\<open>v >> 6\<close> on a signed value is the arithmetic shift \<open>v div 64\<close>, and
  \<^verbatim>\<open>v << k\<close> multiplies by \<open>2 ^ k\<close> and wraps.
\<close>

definition to_FT_Int :: "int \<Rightarrow> int" where
  "to_FT_Int v = (v + 2 ^ 31) mod 2 ^ 32 - 2 ^ 31"

definition to_uint32_t :: "int \<Rightarrow> int" where
  "to_uint32_t v = v mod 2 ^ 32"

definition to_long :: "int \<Rightarrow> int" where
  "to_long v = (v + 2 ^ 63) mod 2 ^ 64 - 2 ^ 63"

definition to_unsigned_long :: "int \<Rightarrow> int" where
  "to_unsigned_long v = v mod 2 ^ 64"

subsection \<open>C floats\<close>

text \<open>
  A \<^verbatim>\<open>float\<close> is an IEEE 754 single-precision value: a real number with a
  24-bit significand and an exponent from -126 to 127 (the subnormal numbers have the
  exponent -126), an infinity with its sign (\<open>True\<close> is negative), or a NaN. The two
  zeros are not told apart: the plugin never divides by a value it computed.
  Every operation rounds its exact result to the nearest such value, ties to the even
  significand (\<^verbatim>\<open>FLT_EVAL_METHOD\<close> 0, no contraction of a product and a sum).
\<close>

datatype c_float = Float_Value real | Float_Infinity bool | Float_NaN

definition pow2 :: "int \<Rightarrow> real" where
  "pow2 k = (if 0 \<le> k then 2 ^ nat k else 1 / 2 ^ nat (- k))"

text \<open>
  The exponent of the binade of \<open>r\<close>: the largest \<open>k\<close> from 127 down to -125 with
  \<open>pow2 k \<le> \<bar>r\<bar>\<close>, and -126 when there is none.
\<close>

fun float_exponent_search :: "nat \<Rightarrow> int \<Rightarrow> real \<Rightarrow> int" where
  "float_exponent_search 0 k r = k"
| "float_exponent_search (Suc n) k r =
     (if pow2 k \<le> \<bar>r\<bar> then k else float_exponent_search n (k - 1) r)"

definition float_exponent :: "real \<Rightarrow> int" where
  "float_exponent r = float_exponent_search 253 127 r"

definition round_half_even :: "real \<Rightarrow> int" where
  "round_half_even q =
     (let f = \<lfloor>q\<rfloor>; d = q - of_int f
      in if d < 1 / 2 then f else if 1 / 2 < d then f + 1 else if even f then f else f + 1)"

definition float_round :: "real \<Rightarrow> c_float" where
  "float_round r =
     (let ulp = pow2 (float_exponent r - 23);
          v = of_int (round_half_even (r / ulp)) * ulp
      in if pow2 128 \<le> \<bar>v\<bar> then Float_Infinity (v < 0) else Float_Value v)"

text \<open>The operators \<^verbatim>\<open>*\<close>, \<^verbatim>\<open>+\<close>, \<^verbatim>\<open>-\<close> and \<^verbatim>\<open>/\<close> on two floats.\<close>

fun fmul :: "c_float \<Rightarrow> c_float \<Rightarrow> c_float" where
  "fmul (Float_Value a) (Float_Value b) = float_round (a * b)"
| "fmul (Float_Value a) (Float_Infinity s) =
     (if a = 0 then Float_NaN else Float_Infinity (s \<noteq> (a < 0)))"
| "fmul (Float_Infinity s) (Float_Value b) =
     (if b = 0 then Float_NaN else Float_Infinity (s \<noteq> (b < 0)))"
| "fmul (Float_Infinity s) (Float_Infinity t) = Float_Infinity (s \<noteq> t)"
| "fmul Float_NaN b = Float_NaN"
| "fmul a Float_NaN = Float_NaN"

fun fadd :: "c_float \<Rightarrow> c_float \<Rightarrow> c_float" where
  "fadd (Float_Value a) (Float_Value b) = float_round (a + b)"
| "fadd (Float_Value a) (Float_Infinity s) = Float_Infinity s"
| "fadd (Float_Infinity s) (Float_Value b) = Float_Infinity s"
| "fadd (Float_Infinity s) (Float_Infinity t) = (if s = t then Float_Infinity s else Float_NaN)"
| "fadd Float_NaN b = Float_NaN"
| "fadd a Float_NaN = Float_NaN"

fun fsub :: "c_float \<Rightarrow> c_float \<Rightarrow> c_float" where
  "fsub (Float_Value a) (Float_Value b) = float_round (a - b)"
| "fsub (Float_Value a) (Float_Infinity s) = Float_Infinity (\<not> s)"
| "fsub (Float_Infinity s) (Float_Value b) = Float_Infinity s"
| "fsub (Float_Infinity s) (Float_Infinity t) = (if s \<noteq> t then Float_Infinity s else Float_NaN)"
| "fsub Float_NaN b = Float_NaN"
| "fsub a Float_NaN = Float_NaN"

fun fdiv :: "c_float \<Rightarrow> c_float \<Rightarrow> c_float" where
  "fdiv (Float_Value a) (Float_Value b) =
     (if b = 0 then (if a = 0 then Float_NaN else Float_Infinity (a < 0))
      else float_round (a / b))"
| "fdiv (Float_Value a) (Float_Infinity s) = Float_Value 0"
| "fdiv (Float_Infinity s) (Float_Value b) = Float_Infinity (s \<noteq> (b < 0))"
| "fdiv (Float_Infinity s) (Float_Infinity t) = Float_NaN"
| "fdiv Float_NaN b = Float_NaN"
| "fdiv a Float_NaN = Float_NaN"

text \<open>The conversion of an \<^verbatim>\<open>int\<close> to \<^verbatim>\<open>float\<close>.\<close>

definition int_to_float :: "int \<Rightarrow> c_float" where
  "int_to_float n = float_round (of_int n)"

text \<open>
  The conversion of a \<^verbatim>\<open>float\<close> to \<^verbatim>\<open>uint8_t\<close> truncates towards zero. C leaves
  it undefined for a value that does not fit; the model gives what the conversion
  through a 32-bit \<^verbatim>\<open>int\<close> gives on x86-64: the low eight bits of the truncated
  value, and 0 for an infinity or a NaN.
\<close>

definition float_to_int :: "real \<Rightarrow> int" where
  "float_to_int r = (if r < 0 then \<lceil>r\<rceil> else \<lfloor>r\<rfloor>)"

definition to_uint8_t :: "c_float \<Rightarrow> 8 word" where
  "to_uint8_t f =
     (case f of
        Float_Value r \<Rightarrow> word_of_int (float_to_int r)
      | Float_Infinity s \<Rightarrow> 0
      | Float_NaN \<Rightarrow> 0)"

subsection \<open>What the plugin reads from FreeType\<close>

text \<open>
  \<^verbatim>\<open>FT_Bitmap\<close>: the coverage bytes are read at the offset \<^verbatim>\<open>xs + pitch * ys\<close> from
  \<^verbatim>\<open>buffer\<close>.
\<close>

record FT_Bitmap =
  bitmap_rows :: int
  bitmap_width :: int
  bitmap_pitch :: int
  bitmap_buffer :: "int \<Rightarrow> 8 word"

text \<open>The fields of \<^verbatim>\<open>face->glyph\<close> after a successful \<^verbatim>\<open>FT_Load_Char\<close>.\<close>

record FT_GlyphSlot =
  advance_x :: int
  advance_y :: int
  bitmap_left :: int
  bitmap_top :: int
  bitmap :: FT_Bitmap

text \<open>
  A face at its current size: \<open>FT_Load_Char fc c\<close> is \<open>None\<close> when
  \<^verbatim>\<open>FT_Load_Char (face, c, FT_LOAD_RENDER | FT_LOAD_TARGET_LIGHT)\<close> returns an error,
  and the loaded glyph slot otherwise; the outcome for a character depends on the face
  and the character only. \<open>ascender\<close>, \<open>descender\<close> and \<open>metrics_height\<close> are
  \<^verbatim>\<open>face->size->metrics.ascender\<close>, \<^verbatim>\<open>.descender\<close> and \<^verbatim>\<open>.height\<close>.
\<close>

record FT_Face =
  FT_Load_Char :: "char \<Rightarrow> FT_GlyphSlot option"
  ascender :: int
  descender :: int
  metrics_height :: int

text \<open>
  The two size requests the plugin makes: \<^verbatim>\<open>FT_Set_Char_Size (face, w, h, hres, vres)\<close>
  and \<^verbatim>\<open>FT_Set_Pixel_Sizes (face, w, h)\<close>. FreeType's answer to a request is a
  parameter of type \<open>FT_Set_Size\<close>: \<open>None\<close> is an error, which leaves the face as
  it was.
\<close>

datatype FT_Size_Request =
    FT_Set_Char_Size int int int int
  | FT_Set_Pixel_Sizes int int

type_synonym FT_Set_Size = "FT_Size_Request \<Rightarrow> FT_Face \<Rightarrow> FT_Face option"

subsection \<open>The control\<close>

record ply_rectangle =
  rect_x :: int
  rect_y :: int
  rect_width :: int
  rect_height :: int

datatype ply_label_alignment =
    PLY_LABEL_ALIGN_LEFT
  | PLY_LABEL_ALIGN_CENTER
  | PLY_LABEL_ALIGN_RIGHT

text \<open>
  \<^verbatim>\<open>struct _ply_label_plugin_control\<close>. \<open>display\<close> and \<open>label_text\<close> are pointers:
  \<open>None\<close> is \<^verbatim>\<open>NULL\<close>. A C string is the list of its characters before the
  terminating NUL.
\<close>

record ply_label_plugin_control =
  display :: "nat option"
  area :: ply_rectangle
  alignment :: ply_label_alignment
  label_width :: int
  face :: FT_Face
  label_text :: "string option"
  red :: c_float
  green :: c_float
  blue :: c_float
  alpha :: c_float
  is_hidden :: bool

text \<open>A call \<^verbatim>\<open>ply_pixel_display_draw_area (display, x, y, width, height)\<close>.\<close>

datatype display_call = ply_pixel_display_draw_area nat int int int int

definition draw_area_of :: "nat \<Rightarrow> ply_rectangle \<Rightarrow> display_call" where
  "draw_area_of d r =
     ply_pixel_display_draw_area d (rect_x r) (rect_y r) (rect_width r) (rect_height r)"

definition get_width_of_control :: "ply_label_plugin_control \<Rightarrow> int" where
  "get_width_of_control label = to_long (rect_width (area label))"

definition get_height_of_control :: "ply_label_plugin_control \<Rightarrow> int" where
  "get_height_of_control label = to_long (rect_height (area label))"

subsection \<open>Layout\<close>

text \<open>
  The loop of \<^verbatim>\<open>width_of_line\<close>. A loop that does not end has no result: \<open>None\<close>.
  The pointer \<^verbatim>\<open>text\<close> advances only in the branch of a successful load.
\<close>

partial_function (option) width_of_line_loop :: "FT_Face \<Rightarrow> int \<Rightarrow> string \<Rightarrow> int option" where
  "width_of_line_loop fc w str =
     (case str of
        [] \<Rightarrow> Some w
      | c # rest \<Rightarrow>
          if c = CHR 0x0A then Some w
          else (case FT_Load_Char fc c of
                  None \<Rightarrow> width_of_line_loop fc w str
                | Some slot \<Rightarrow>
                    let w1 = to_FT_Int (w + advance_x slot div 64);
                        left_bearing = bitmap_left slot;
                        w2 = (if left_bearing < 0 then to_FT_Int (w1 + (- left_bearing)) else w1)
                    in width_of_line_loop fc w2 rest))"

definition width_of_line :: "FT_Face \<Rightarrow> string \<Rightarrow> int option" where
  "width_of_line fc str = width_of_line_loop fc 0 str"

text \<open>\<^verbatim>\<open>strchr (text, c)\<close> for a character \<open>c\<close> other than NUL.\<close>

fun strchr :: "string \<Rightarrow> char \<Rightarrow> string option" where
  "strchr [] c = None"
| "strchr (a # s) c = (if a = c then Some (a # s) else strchr s c)"

text \<open>
  The loop of \<^verbatim>\<open>size_control\<close> over the lines, on the values of
  \<^verbatim>\<open>label->area.width\<close> and \<^verbatim>\<open>label->area.height\<close>.
\<close>

partial_function (option) size_control_loop ::
    "FT_Face \<Rightarrow> string option \<Rightarrow> int \<Rightarrow> int \<Rightarrow> (int \<times> int) option" where
  "size_control_loop fc str aw ah =
     (case str of
        None \<Rightarrow> Some (aw, ah)
      | Some [] \<Rightarrow> Some (aw, ah)
      | Some (c # s) \<Rightarrow>
          Option.bind (width_of_line fc (c # s)) (\<lambda>wd.
            let aw1 = (if to_uint32_t wd > aw then to_unsigned_long wd else aw);
                ah1 = to_unsigned_long (ah + to_long (ascender fc - descender fc) div 64);
                str1 = (case strchr (c # s) (CHR 0x0A) of None \<Rightarrow> None | Some nl \<Rightarrow> Some (tl nl))
            in size_control_loop fc str1 aw1 ah1))"

text \<open>
  What \<^verbatim>\<open>size_control\<close> stores in \<^verbatim>\<open>label->area.width\<close> and
  \<^verbatim>\<open>label->area.height\<close> of a label that is not hidden: the spec's \<open>measure_label\<close>.
\<close>

definition size_control_box :: "FT_Face \<Rightarrow> string option \<Rightarrow> int \<Rightarrow> (int \<times> int) option" where
  "size_control_box fc str min_width =
     Option.bind (size_control_loop fc str 0 0) (\<lambda>(aw, ah).
       Some (if to_long aw < min_width then to_unsigned_long min_width else aw, ah))"

definition size_control :: "ply_label_plugin_control \<Rightarrow> ply_label_plugin_control option" where
  "size_control label =
     (if is_hidden label then Some label
      else Option.bind (size_control_box (face label) (label_text label) (label_width label))
             (\<lambda>(aw, ah).
                Some (label\<lparr>area := (area label)\<lparr>rect_width := aw, rect_height := ah\<rparr>\<rparr>)))"

text \<open>
  \<^verbatim>\<open>trigger_redraw\<close>, with the calls it makes to the display. It returns at once
  when the label is hidden or has no display.
\<close>

definition trigger_redraw ::
    "ply_label_plugin_control \<Rightarrow> bool \<Rightarrow> (ply_label_plugin_control \<times> display_call list) option" where
  "trigger_redraw label adjust_size =
     (let dirty_area = area label in
      case display label of
        None \<Rightarrow> Some (label, [])
      | Some d \<Rightarrow>
          if is_hidden label then Some (label, [])
          else Option.bind (if adjust_size then size_control label else Some label) (\<lambda>label1.
                 Some (label1, [draw_area_of d dirty_area])))"

subsection \<open>Drawing\<close>

text \<open>
  The target of a draw: the words at \<^verbatim>\<open>target[i]\<close>, and the list of the writes made
  to them, the latest first.
\<close>

type_synonym target = "(nat \<Rightarrow> 32 word) \<times> (nat \<times> 32 word) list"

text \<open>
  What \<^verbatim>\<open>ply_pixel_buffer_get_size\<close> and \<^verbatim>\<open>ply_pixel_buffer_get_argb32_data\<close>
  give for a pixel buffer.
\<close>

record ply_pixel_buffer =
  buffer_size :: ply_rectangle
  argb32_data :: "nat \<Rightarrow> 32 word"

datatype error = Null_Pointer_Dereference

text \<open>
  The \<^verbatim>\<open>float alpha\<close> of the inner loop of \<^verbatim>\<open>draw_bitmap\<close> for the coverage byte
  \<open>cov\<close> read from \<^verbatim>\<open>source->buffer\<close>: the byte is converted to \<^verbatim>\<open>float\<close>, divided by
  \<^verbatim>\<open>255.0f\<close> and multiplied by \<^verbatim>\<open>label->alpha\<close>, each operation rounded to single
  precision.
\<close>

definition draw_bitmap_alpha :: "ply_label_plugin_control \<Rightarrow> 8 word \<Rightarrow> c_float" where
  "draw_bitmap_alpha label cov =
     fmul (alpha label) (fdiv (int_to_float (uint cov)) (Float_Value 255))"

text \<open>
  The body of the inner loop of \<^verbatim>\<open>draw_bitmap\<close> on the values: the word stored for
  the coverage byte \<open>cov\<close> over the word \<open>dest\<close>. \<open>rs\<close>, \<open>gs\<close> and \<open>bs\<close> are the
  \<^verbatim>\<open>uint8_t\<close> values of \<^verbatim>\<open>255 * label->red\<close>, \<^verbatim>\<open>255 * label->green\<close> and
  \<^verbatim>\<open>255 * label->blue\<close>; \<open>rd\<close>, \<open>gd\<close> and \<open>bd\<close> are the low bytes of \<^verbatim>\<open>dest >> 16\<close>,
  \<^verbatim>\<open>dest >> 8\<close> and \<^verbatim>\<open>dest\<close>. In every product and sum the \<^verbatim>\<open>uint8_t\<close> operand is
  converted to \<^verbatim>\<open>float\<close>, the operation is rounded to single precision, and the
  assignment to a \<^verbatim>\<open>uint8_t\<close> converts the result back.
\<close>

definition draw_bitmap_blend :: "ply_label_plugin_control \<Rightarrow> 8 word \<Rightarrow> 32 word \<Rightarrow> 32 word" where
  "draw_bitmap_blend label cov dest =
     (let rs = to_uint8_t (fmul (int_to_float 255) (red label));
          gs = to_uint8_t (fmul (int_to_float 255) (green label));
          bs = to_uint8_t (fmul (int_to_float 255) (blue label));
          a = draw_bitmap_alpha label cov;
          invalpha = fsub (Float_Value 1) a;
          rd = (ucast (drop_bit 16 dest) :: 8 word);
          gd = (ucast (drop_bit 8 dest) :: 8 word);
          bd = (ucast dest :: 8 word);
          rd1 = to_uint8_t (fadd (fmul invalpha (int_to_float (uint rd)))
                                 (fmul a (int_to_float (uint rs))));
          gd1 = to_uint8_t (fadd (fmul invalpha (int_to_float (uint gd)))
                                 (fmul a (int_to_float (uint gs))));
          bd1 = to_uint8_t (fadd (fmul invalpha (int_to_float (uint bd)))
                                 (fmul a (int_to_float (uint bs))));
          ad = to_uint8_t (fmul a (int_to_float 255))
      in push_bit 24 (ucast ad) OR push_bit 16 (ucast rd1) OR push_bit 8 (ucast gd1) OR ucast bd1)"

definition draw_bitmap_pixel ::
    "ply_label_plugin_control \<Rightarrow> ply_rectangle \<Rightarrow> FT_Bitmap \<Rightarrow> int \<Rightarrow> int \<Rightarrow> int \<Rightarrow> int
     \<Rightarrow> target \<Rightarrow> target" where
  "draw_bitmap_pixel label tgt_size source x_start y_start py px tg =
     (let i = nat (to_unsigned_long (px + rect_width tgt_size * py));
          cov = bitmap_buffer source
                  (to_FT_Int ((px - x_start) + bitmap_pitch source * (py - y_start)));
          v = draw_bitmap_blend label cov (fst tg i)
      in ((fst tg)(i := v), (i, v) # snd tg))"

text \<open>
  \<^verbatim>\<open>draw_bitmap\<close>; \<open>tgt_size\<close> is its parameter \<^verbatim>\<open>target_size\<close>. \<^verbatim>\<open>MIN\<close> is
  the minimum of its two arguments; the two \<^verbatim>\<open>for\<close> loops count \<open>y\<close> from
  \<open>y_start\<close> up to \<open>y_end - 1\<close> and \<open>x\<close> from \<open>x_start\<close> up to \<open>x_end - 1\<close>.
\<close>

definition draw_bitmap ::
    "ply_label_plugin_control \<Rightarrow> target \<Rightarrow> ply_rectangle \<Rightarrow> FT_Bitmap \<Rightarrow> int \<Rightarrow> int
     \<Rightarrow> target" where
  "draw_bitmap label tg tgt_size source x_start y_start =
     (let x_end = to_FT_Int (min (to_uint32_t (x_start + bitmap_width source))
                                 (rect_width tgt_size));
          y_end = to_FT_Int (min (to_uint32_t (y_start + bitmap_rows source))
                                 (rect_height tgt_size))
      in if to_uint32_t x_start \<ge> rect_width tgt_size
            \<or> to_uint32_t y_start \<ge> rect_height tgt_size
         then tg
         else foldl (\<lambda>tg1 py.
                foldl (\<lambda>tg2 px.
                  draw_bitmap_pixel label tgt_size source x_start y_start py px tg2)
                  tg1 [x_start .. x_end - 1])
                tg [y_start .. y_end - 1])"

text \<open>
  The inner loop of \<^verbatim>\<open>draw_control\<close> over the characters of a line, on \<^verbatim>\<open>pen.x\<close>,
  \<^verbatim>\<open>pen.y\<close>, \<^verbatim>\<open>cur_c\<close> and the target. \<^verbatim>\<open>continue\<close> goes back to the loop's
  condition with the same \<^verbatim>\<open>cur_c\<close>.
\<close>

partial_function (option) draw_control_line ::
    "ply_label_plugin_control \<Rightarrow> ply_rectangle \<Rightarrow> int \<Rightarrow> int \<Rightarrow> string \<Rightarrow> target
     \<Rightarrow> (int \<times> int \<times> string \<times> target) option" where
  "draw_control_line label tgt_size pen_x pen_y cur_c tg =
     (case cur_c of
        [] \<Rightarrow> Some (pen_x, pen_y, cur_c, tg)
      | c # rest \<Rightarrow>
          if c = CHR 0x0A then Some (pen_x, pen_y, cur_c, tg)
          else (case FT_Load_Char (face label) c of
                  None \<Rightarrow> draw_control_line label tgt_size pen_x pen_y cur_c tg
                | Some slot \<Rightarrow>
                    let extraAdvance =
                          (if bitmap_left slot < 0 then to_FT_Int (- bitmap_left slot) else 0);
                        positiveBearingX =
                          (if bitmap_left slot < 0 then 0 else bitmap_left slot);
                        tg1 = draw_bitmap label tg tgt_size (bitmap slot)
                                (to_FT_Int (pen_x div 64 + positiveBearingX))
                                (to_FT_Int (pen_y div 64 - bitmap_top slot));
                        pen_x1 = to_long (pen_x + to_long (advance_x slot + extraAdvance));
                        pen_y1 = to_long (pen_y + advance_y slot)
                    in draw_control_line label tgt_size pen_x1 pen_y1 rest tg1))"

text \<open>The outer loop of \<^verbatim>\<open>draw_control\<close> over the lines.\<close>

partial_function (option) draw_control_lines ::
    "ply_label_plugin_control \<Rightarrow> ply_rectangle \<Rightarrow> int \<Rightarrow> string \<Rightarrow> target \<Rightarrow> target option" where
  "draw_control_lines label tgt_size pen_y cur_c tg =
     (case cur_c of
        [] \<Rightarrow> Some tg
      | c # rest \<Rightarrow>
          Option.bind
            (let pen_x = to_long (rect_x (area label) * 64) in
             case alignment label of
               PLY_LABEL_ALIGN_LEFT \<Rightarrow> Some pen_x
             | PLY_LABEL_ALIGN_CENTER \<Rightarrow>
                 Option.bind (width_of_line (face label) cur_c) (\<lambda>lw.
                   Some (to_long (pen_x
                     + to_unsigned_long (to_unsigned_long (rect_width (area label) - lw) * 32))))
             | PLY_LABEL_ALIGN_RIGHT \<Rightarrow>
                 Option.bind (width_of_line (face label) cur_c) (\<lambda>lw.
                   Some (to_long (pen_x
                     + to_unsigned_long (to_unsigned_long (rect_width (area label) - lw) * 64)))))
            (\<lambda>pen_x.
               Option.bind (draw_control_line label tgt_size pen_x pen_y cur_c tg)
                 (\<lambda>(pen_x1, pen_y1, cur_c1, tg1).
                    let cur_c2 = (case cur_c1 of [] \<Rightarrow> [] | nl # after \<Rightarrow> after);
                        pen_y2 = to_long (pen_y1 + metrics_height (face label))
                    in draw_control_lines label tgt_size pen_y2 cur_c2 tg1)))"

text \<open>
  \<^verbatim>\<open>draw_control\<close>. The result is \<open>None\<close> when the call does not return,
  \<open>Some (Inl e)\<close> when it dereferences \<^verbatim>\<open>label->text\<close> that is \<^verbatim>\<open>NULL\<close>, and
  \<open>Some (Inr tg)\<close> with the target and the writes made to it when it returns.
\<close>

definition draw_control ::
    "ply_label_plugin_control \<Rightarrow> ply_pixel_buffer \<Rightarrow> int \<Rightarrow> int \<Rightarrow> int \<Rightarrow> int
     \<Rightarrow> (error + target) option" where
  "draw_control label pixel_buffer x y width height =
     (if is_hidden label then Some (Inr (argb32_data pixel_buffer, []))
      else if rect_x (area label) > to_long (x + to_long width)
              \<or> rect_y (area label) > to_long (y + to_long height)
              \<or> to_long (rect_x (area label) + to_long (rect_width (area label))) < x
              \<or> to_long (rect_y (area label) + to_long (rect_height (area label))) < y
      then Some (Inr (argb32_data pixel_buffer, []))
      else if rect_height (buffer_size pixel_buffer) = 0
      then Some (Inr (argb32_data pixel_buffer, []))
      else (case label_text label of
              None \<Rightarrow> Some (Inl Null_Pointer_Dereference)
            | Some cur_c \<Rightarrow>
                map_option Inr
                  (draw_control_lines label (buffer_size pixel_buffer)
                     (to_long (to_long (rect_y (area label) * 64) + ascender (face label)))
                     cur_c (argb32_data pixel_buffer, []))))"

subsection \<open>The setters, show and hide\<close>

definition set_alignment_for_control ::
    "ply_label_plugin_control \<Rightarrow> ply_label_alignment
     \<Rightarrow> (ply_label_plugin_control \<times> display_call list) option" where
  "set_alignment_for_control label al =
     (if alignment label \<noteq> al then trigger_redraw (label\<lparr>alignment := al\<rparr>) True
      else Some (label, []))"

definition set_width_for_control ::
    "ply_label_plugin_control \<Rightarrow> int \<Rightarrow> (ply_label_plugin_control \<times> display_call list) option" where
  "set_width_for_control label w =
     (if label_width label \<noteq> w then trigger_redraw (label\<lparr>label_width := w\<rparr>) True
      else Some (label, []))"

text \<open>
  \<^verbatim>\<open>set_text_for_control\<close>. \<^verbatim>\<open>label->text\<close> is \<^verbatim>\<open>NULL\<close> or a copy that
  \<^verbatim>\<open>strdup\<close> made for the label, so the argument is the same pointer only when both
  are \<^verbatim>\<open>NULL\<close>. \<^verbatim>\<open>strdup (NULL)\<close> reads through the null pointer.
\<close>

definition set_text_for_control ::
    "ply_label_plugin_control \<Rightarrow> string option
     \<Rightarrow> (error + ply_label_plugin_control \<times> display_call list) option" where
  "set_text_for_control label str =
     (if \<not> (label_text label = None \<and> str = None)
      then (case str of
              None \<Rightarrow> Some (Inl Null_Pointer_Dereference)
            | Some s \<Rightarrow> map_option Inr (trigger_redraw (label\<lparr>label_text := Some s\<rparr>) True))
      else Some (Inr (label, [])))"

text \<open>The C library's \<^verbatim>\<open>strrchr\<close>, \<^verbatim>\<open>isspace\<close>, \<^verbatim>\<open>isdigit\<close> and
  \<^verbatim>\<open>strtoul (nptr, &endptr, 10)\<close>; \<open>strtoul\<close> gives the value and \<^verbatim>\<open>endptr\<close>.\<close>

fun strrchr :: "string \<Rightarrow> char \<Rightarrow> string option" where
  "strrchr [] c = None"
| "strrchr (a # s) c =
     (case strrchr s c of
        Some r \<Rightarrow> Some r
      | None \<Rightarrow> if a = c then Some (a # s) else None)"

definition isspace :: "char \<Rightarrow> bool" where
  "isspace c = (c = CHR 0x20 \<or> c = CHR 0x09 \<or> c = CHR 0x0A \<or> c = CHR 0x0B
                \<or> c = CHR 0x0C \<or> c = CHR 0x0D)"

definition isdigit :: "char \<Rightarrow> bool" where
  "isdigit c = (48 \<le> (of_char c :: nat) \<and> (of_char c :: nat) \<le> 57)"

fun strtoul_digits :: "string \<Rightarrow> int \<Rightarrow> int \<times> string" where
  "strtoul_digits [] acc = (acc, [])"
| "strtoul_digits (c # s) acc =
     (if isdigit c then strtoul_digits s (acc * 10 + (of_char c - 48)) else (acc, c # s))"

definition strtoul :: "string \<Rightarrow> int \<times> string" where
  "strtoul nptr =
     (let s1 = dropWhile isspace nptr;
          negative = (case s1 of [] \<Rightarrow> False | c # r \<Rightarrow> c = CHR ''-'');
          s2 = (case s1 of [] \<Rightarrow> [] | c # r \<Rightarrow> if c = CHR ''-'' \<or> c = CHR ''+'' then r else s1)
      in case s2 of
           [] \<Rightarrow> (0, nptr)
         | c # r \<Rightarrow>
             if isdigit c
             then (let (v, endptr) = strtoul_digits s2 0
                   in (if v > 2 ^ 64 - 1 then 2 ^ 64 - 1
                       else if negative then to_unsigned_long (- v) else v, endptr))
             else (0, nptr))"

text \<open>
  The first half of \<^verbatim>\<open>set_font_for_control\<close>: the size request it makes to FreeType
  for a font description. \<open>size_str_after\<close> and \<open>size_str\<close> point into the same
  string, so they are the same pointer exactly when they are the same suffix.
\<close>

definition set_font_size_request :: "string \<Rightarrow> FT_Size_Request" where
  "set_font_size_request fontdesc =
     (let (size, size_in_pixels) =
            (case strrchr fontdesc (CHR 0x20) of
               None \<Rightarrow> (25, False)
             | Some size_str \<Rightarrow>
                 (let (sz, size_str_after) = strtoul size_str
                  in if size_str_after = size_str then (25, False)
                     else if size_str_after = ''px'' then (sz, True)
                     else (sz, False)))
      in if size_in_pixels then FT_Set_Pixel_Sizes 0 (to_uint32_t size)
         else FT_Set_Char_Size (to_long (to_unsigned_long (size * 64))) 0 72 0)"

definition set_font_for_control ::
    "FT_Set_Size \<Rightarrow> ply_label_plugin_control \<Rightarrow> string
     \<Rightarrow> (ply_label_plugin_control \<times> display_call list) option" where
  "set_font_for_control ft_set_size label fontdesc =
     (let fc = (case ft_set_size (set_font_size_request fontdesc) (face label) of
                  None \<Rightarrow> face label
                | Some fc1 \<Rightarrow> fc1)
      in trigger_redraw (label\<lparr>face := fc\<rparr>) True)"

definition set_color_for_control ::
    "ply_label_plugin_control \<Rightarrow> c_float \<Rightarrow> c_float \<Rightarrow> c_float \<Rightarrow> c_float
     \<Rightarrow> (ply_label_plugin_control \<times> display_call list) option" where
  "set_color_for_control label r g b a =
     trigger_redraw (label\<lparr>red := r, green := g, blue := b, alpha := a\<rparr>) False"

text \<open>\<^verbatim>\<open>show_control\<close>; the third component is the value it returns.\<close>

definition show_control ::
    "ply_label_plugin_control \<Rightarrow> nat option \<Rightarrow> int \<Rightarrow> int
     \<Rightarrow> (ply_label_plugin_control \<times> display_call list \<times> bool) option" where
  "show_control label disp x y =
     (let dirty_area = area label;
          label1 = label\<lparr>display := disp, area := (area label)\<lparr>rect_x := x, rect_y := y\<rparr>,
                         is_hidden := False\<rparr>
      in Option.bind (size_control label1) (\<lambda>label2.
           let calls = (case display label2 of
                          None \<Rightarrow> []
                        | Some d \<Rightarrow> if \<not> is_hidden label2 then [draw_area_of d dirty_area] else [])
           in Some (label2\<lparr>is_hidden := False\<rparr>, calls, True)))"

definition hide_control ::
    "ply_label_plugin_control \<Rightarrow> ply_label_plugin_control \<times> display_call list" where
  "hide_control label =
     (let label1 = label\<lparr>is_hidden := True\<rparr>;
          calls = (case display label1 of
                     None \<Rightarrow> []
                   | Some d \<Rightarrow> [draw_area_of d (area label1)])
      in (label1\<lparr>display := None\<rparr>, calls))"

definition is_control_hidden :: "ply_label_plugin_control \<Rightarrow> bool" where
  "is_control_hidden label = is_hidden label"

subsection \<open>The interface\<close>

text \<open>The operations of the plugin's interface that act on a label, and the label after one.\<close>

datatype label_operation =
    Show_Control "nat option" int int
  | Hide_Control
  | Draw_Control ply_pixel_buffer int int int int
  | Set_Text_For_Control "string option"
  | Set_Alignment_For_Control ply_label_alignment
  | Set_Width_For_Control int
  | Set_Font_For_Control string
  | Set_Color_For_Control c_float c_float c_float c_float

definition run_operation ::
    "FT_Set_Size \<Rightarrow> ply_label_plugin_control \<Rightarrow> label_operation
     \<Rightarrow> (error + ply_label_plugin_control) option" where
  "run_operation ft_set_size label op =
     (case op of
        Show_Control disp x y \<Rightarrow> map_option (\<lambda>r. Inr (fst r)) (show_control label disp x y)
      | Hide_Control \<Rightarrow> Some (Inr (fst (hide_control label)))
      | Draw_Control pixel_buffer x y w h \<Rightarrow>
          map_option (map_sum id (\<lambda>tg. label)) (draw_control label pixel_buffer x y w h)
      | Set_Text_For_Control str \<Rightarrow> map_option (map_sum id fst) (set_text_for_control label str)
      | Set_Alignment_For_Control al \<Rightarrow> map_option (\<lambda>r. Inr (fst r)) (set_alignment_for_control label al)
      | Set_Width_For_Control w \<Rightarrow> map_option (\<lambda>r. Inr (fst r)) (set_width_for_control label w)
      | Set_Font_For_Control fontdesc \<Rightarrow>
          map_option (\<lambda>r. Inr (fst r)) (set_font_for_control ft_set_size label fontdesc)
      | Set_Color_For_Control r g b a \<Rightarrow>
          map_option (\<lambda>r. Inr (fst r)) (set_color_for_control label r g b a))"

subsection \<open>Derived quantities and the invariant\<close>

text \<open>
  The width one character adds to its line: the advance in whole pixels, plus the
  absolute value of a negative left bearing. A character that does not load adds 0.
\<close>

definition char_width :: "FT_Face \<Rightarrow> char \<Rightarrow> int" where
  "char_width fc c =
     (case FT_Load_Char fc c of
        None \<Rightarrow> 0
      | Some slot \<Rightarrow>
          advance_x slot div 64 + (if bitmap_left slot < 0 then - bitmap_left slot else 0))"

definition line_width_sum :: "FT_Face \<Rightarrow> string \<Rightarrow> int" where
  "line_width_sum fc str = sum_list (map (char_width fc) str)"

text \<open>The height \<^verbatim>\<open>size_control\<close> adds for each line.\<close>

definition line_height_px :: "FT_Face \<Rightarrow> int" where
  "line_height_px fc = to_long (ascender fc - descender fc) div 64"

text \<open>The text of the given lines, a newline between two of them.\<close>

fun join_lines :: "string list \<Rightarrow> string" where
  "join_lines [] = []"
| "join_lines [l] = l"
| "join_lines (l # l2 # ls) = l @ CHR 0x0A # join_lines (l2 # ls)"

text \<open>The cached box of a label that is shown on a display is the box of its state.\<close>

definition box_is_current :: "ply_label_plugin_control \<Rightarrow> bool" where
  "box_is_current label =
     (is_hidden label \<or> display label = None
      \<or> size_control_box (face label) (label_text label) (label_width label)
          = Some (rect_width (area label), rect_height (area label)))"

text \<open>
  The label \<^verbatim>\<open>create_control\<close> returns when FreeType gives it the face \<open>fc\<close>:
  \<^verbatim>\<open>calloc\<close> zeroes the fields, then the label is hidden, its width is -1 and its
  text is \<^verbatim>\<open>NULL\<close>.
\<close>

definition create_control :: "FT_Face \<Rightarrow> ply_label_plugin_control" where
  "create_control fc =
     \<lparr>display = None,
      area = \<lparr>rect_x = 0, rect_y = 0, rect_width = 0, rect_height = 0\<rparr>,
      alignment = PLY_LABEL_ALIGN_LEFT, label_width = - 1, face = fc, label_text = None,
      red = Float_Value 0, green = Float_Value 0, blue = Float_Value 0,
      alpha = Float_Value 0, is_hidden = True\<rparr>"

subsection \<open>Example faces and labels\<close>

definition glyph_1x1 :: "int \<Rightarrow> int \<Rightarrow> FT_GlyphSlot" where
  "glyph_1x1 adv lb =
     \<lparr>advance_x = adv, advance_y = 0, bitmap_left = lb, bitmap_top = 0,
      bitmap = \<lparr>bitmap_rows = 1, bitmap_width = 1, bitmap_pitch = 1,
                bitmap_buffer = (\<lambda>i. 255)\<rparr>\<rparr>"

text \<open>A face that has no glyph for the letter b.\<close>

definition face_without_b :: FT_Face where
  "face_without_b =
     \<lparr>FT_Load_Char = (\<lambda>c. if c = CHR ''b'' then None else Some (glyph_1x1 640 0)),
      ascender = 640, descender = - 128, metrics_height = 832\<rparr>"

text \<open>A face with the same glyph for every character: 10 pixels wide, lines of 12 pixels.\<close>

definition face_plain :: FT_Face where
  "face_plain =
     \<lparr>FT_Load_Char = (\<lambda>c. Some (glyph_1x1 640 0)),
      ascender = 640, descender = - 128, metrics_height = 832\<rparr>"

text \<open>A face whose glyph for the letter b has a negative advance.\<close>

definition face_negative_advance :: FT_Face where
  "face_negative_advance =
     \<lparr>FT_Load_Char = (\<lambda>c. if c = CHR ''b'' then Some (glyph_1x1 (- 640) 0)
                            else Some (glyph_1x1 640 0)),
      ascender = 640, descender = - 128, metrics_height = 832\<rparr>"

text \<open>
  A label without text that is shown on display 0 with a requested width of 30 pixels.
\<close>

definition shown_label :: ply_label_plugin_control where
  "shown_label =
     (create_control face_plain)
       \<lparr>display := Some 0,
        area := \<lparr>rect_x = 0, rect_y = 0, rect_width = 30, rect_height = 0\<rparr>,
        label_width := 30, is_hidden := False\<rparr>"

text \<open>A face whose glyphs are all \<open>n\<close> pixels wide, with lines of \<open>n\<close> pixels.\<close>

definition face_of_size :: "int \<Rightarrow> FT_Face" where
  "face_of_size n =
     \<lparr>FT_Load_Char = (\<lambda>c. Some (glyph_1x1 (64 * n) 0)),
      ascender = 64 * n, descender = 0, metrics_height = 64 * n\<rparr>"

text \<open>
  A FreeType that refuses a size of 0 and gives the face of the requested pixel size,
  or of the requested size in points at 72 dpi, otherwise.
\<close>

definition example_set_size :: FT_Set_Size where
  "example_set_size req fc =
     (case req of
        FT_Set_Char_Size w h hres vres \<Rightarrow> if w div 64 = 0 then None else Some (face_of_size (w div 64))
      | FT_Set_Pixel_Sizes w h \<Rightarrow> if h = 0 then None else Some (face_of_size h))"

text \<open>A hidden label with the text ab: the created label after \<open>set_text\<close>.\<close>

definition hidden_label :: ply_label_plugin_control where
  "hidden_label = (create_control face_plain)\<lparr>label_text := Some ''ab''\<rparr>"

text \<open>
  A label with the text a that was shown at (0, 0) without a display: it is not hidden
  and its box is the box of its text.
\<close>

definition unattached_label :: ply_label_plugin_control where
  "unattached_label =
     (create_control face_plain)
       \<lparr>area := \<lparr>rect_x = 0, rect_y = 0, rect_width = 10, rect_height = 12\<rparr>,
        label_text := Some ''a'', is_hidden := False\<rparr>"

text \<open>
  A white, opaque label with the text a, shown on display 0 with its box of 10 by 12
  at (0, 0), and a pixel buffer of 100 by 100 black, transparent pixels.
\<close>

definition drawn_label :: ply_label_plugin_control where
  "drawn_label =
     (create_control face_plain)
       \<lparr>display := Some 0,
        area := \<lparr>rect_x = 0, rect_y = 0, rect_width = 10, rect_height = 12\<rparr>,
        label_text := Some ''a'', red := Float_Value 1, green := Float_Value 1, blue := Float_Value 1,
        alpha := Float_Value 1,
        is_hidden := False\<rparr>"

definition example_buffer :: ply_pixel_buffer where
  "example_buffer =
     \<lparr>buffer_size = \<lparr>rect_x = 0, rect_y = 0, rect_width = 100, rect_height = 100\<rparr>,
      argb32_data = (\<lambda>i. 0)\<rparr>"

text \<open>The same label with the text ab and the face that has no glyph for b.\<close>

definition label_without_b :: ply_label_plugin_control where
  "label_without_b =
     (create_control face_without_b)
       \<lparr>display := Some 0,
        area := \<lparr>rect_x = 0, rect_y = 0, rect_width = 10, rect_height = 12\<rparr>,
        label_text := Some ''ab'', red := Float_Value 1, green := Float_Value 1, blue := Float_Value 1,
        alpha := Float_Value 1,
        is_hidden := False\<rparr>"

section \<open>Properties\<close>

subsection \<open>Conversions\<close>

lemma to_FT_Int_add_left: "to_FT_Int (to_FT_Int a + b) = to_FT_Int (a + b)"
  by (simp add: to_FT_Int_def mod_simps algebra_simps)

lemma to_FT_Int_diff_left: "to_FT_Int (to_FT_Int a - b) = to_FT_Int (a - b)"
  using to_FT_Int_add_left [of a "- b"] by simp

lemma to_FT_Int_id: "- (2 ^ 31) \<le> v \<Longrightarrow> v < 2 ^ 31 \<Longrightarrow> to_FT_Int v = v"
  by (simp add: to_FT_Int_def)

lemma to_FT_Int_range: "- (2 ^ 31) \<le> to_FT_Int v \<and> to_FT_Int v < 2 ^ 31"
  by (simp add: to_FT_Int_def)

lemma to_unsigned_long_add_left:
  "to_unsigned_long (to_unsigned_long a + b) = to_unsigned_long (a + b)"
  by (simp add: to_unsigned_long_def mod_simps)

lemma to_unsigned_long_id: "0 \<le> v \<Longrightarrow> v < 2 ^ 64 \<Longrightarrow> to_unsigned_long v = v"
  by (simp add: to_unsigned_long_def)

lemma to_long_id: "- (2 ^ 63) \<le> v \<Longrightarrow> v < 2 ^ 63 \<Longrightarrow> to_long v = v"
  by (simp add: to_long_def)

subsection \<open>The width of a line\<close>

lemma width_of_line_loop_returns_loaded:
  assumes "width_of_line_loop fc w str = Some r"
  shows "\<forall>c \<in> set (takeWhile (\<lambda>c. c \<noteq> CHR 0x0A) str). FT_Load_Char fc c \<noteq> None"
  using assms
proof (induction rule: width_of_line_loop.raw_induct [rotated 1, consumes 1])
  case (1 loop fc w str r)
  show ?case
  proof (cases str)
    case Nil
    then show ?thesis by simp
  next
    case (Cons c rest)
    show ?thesis
    proof (cases "c = CHR 0x0A")
      case True
      with Cons show ?thesis by simp
    next
      case nl: False
      show ?thesis
      proof (cases "FT_Load_Char fc c")
        case None
        with 1(2) Cons nl have "loop fc w str = Some r" by simp
        then show ?thesis by (rule "1.IH")
      next
        case (Some slot)
        with 1(2) Cons nl obtain w2 where "loop fc w2 rest = Some r"
          by (auto simp: Let_def)
        then have "\<forall>c \<in> set (takeWhile (\<lambda>c. c \<noteq> CHR 0x0A) rest). FT_Load_Char fc c \<noteq> None"
          by (rule "1.IH")
        with Cons nl Some show ?thesis by simp
      qed
    qed
  qed
qed

lemma width_of_line_loop_failing_load:
  assumes "c \<in> set (takeWhile (\<lambda>c. c \<noteq> CHR 0x0A) str)"
    and "FT_Load_Char fc c = None"
  shows "width_of_line_loop fc w str = None"
proof (cases "width_of_line_loop fc w str")
  case None
  then show ?thesis .
next
  case (Some r)
  from width_of_line_loop_returns_loaded [OF this] assms show ?thesis
    by blast
qed

lemma width_of_line_loop_sum:
  assumes "\<forall>c \<in> set str. c \<noteq> CHR 0x0A \<and> FT_Load_Char fc c \<noteq> None"
  shows "width_of_line_loop fc (to_FT_Int w) str = Some (to_FT_Int (w + line_width_sum fc str))"
  using assms
proof (induction str arbitrary: w)
  case Nil
  show ?case by (simp add: width_of_line_loop.simps line_width_sum_def)
next
  case (Cons c rest)
  then obtain slot where slot: "FT_Load_Char fc c = Some slot" and nl: "c \<noteq> CHR 0x0A"
    by auto
  have step: "width_of_line_loop fc (to_FT_Int w) (c # rest)
              = width_of_line_loop fc (to_FT_Int (w + char_width fc c)) rest"
    by (subst width_of_line_loop.simps)
       (simp add: slot nl Let_def char_width_def to_FT_Int_add_left to_FT_Int_diff_left add_diff_eq add.assoc)
  from Cons have "width_of_line_loop fc (to_FT_Int (w + char_width fc c)) rest
      = Some (to_FT_Int (w + char_width fc c + line_width_sum fc rest))"
    by simp
  with step show ?case by (simp add: line_width_sum_def algebra_simps)
qed

lemma width_of_line_loop_range:
  assumes "width_of_line_loop fc w str = Some r"
  shows "- (2 ^ 31) \<le> w \<and> w < 2 ^ 31 \<longrightarrow> - (2 ^ 31) \<le> r \<and> r < 2 ^ 31"
  using assms
proof (induction rule: width_of_line_loop.raw_induct [rotated 1, consumes 1])
  case (1 loop fc w str r)
  show ?case
  proof (cases str)
    case Nil
    with 1(2) show ?thesis by simp
  next
    case (Cons c rest)
    show ?thesis
    proof (cases "c = CHR 0x0A")
      case True
      with Cons 1(2) show ?thesis by simp
    next
      case nl: False
      show ?thesis
      proof (cases "FT_Load_Char fc c")
        case None
        with 1(2) Cons nl have "loop fc w str = Some r" by simp
        then show ?thesis by (rule "1.IH")
      next
        case (Some slot)
        let ?w1 = "to_FT_Int (w + advance_x slot div 64)"
        let ?w2 = "if bitmap_left slot < 0 then to_FT_Int (?w1 + (- bitmap_left slot)) else ?w1"
        from 1(2) Cons nl Some have w2: "loop fc ?w2 rest = Some r"
          by (simp add: Let_def)
        have "- (2 ^ 31) \<le> ?w2 \<and> ?w2 < 2 ^ 31"
          using to_FT_Int_range by simp
        with "1.IH" [OF w2] show ?thesis by blast
      qed
    qed
  qed
qed

lemma width_of_line_range:
  "width_of_line fc str = Some r \<Longrightarrow> - (2 ^ 31) \<le> r \<and> r < 2 ^ 31"
  using width_of_line_loop_range [of fc 0 str r] by (simp add: width_of_line_def)

lemma width_of_line_loop_stops_at_newline:
  assumes "CHR 0x0A \<notin> set l"
  shows "width_of_line_loop fc w (l @ CHR 0x0A # rest) = width_of_line_loop fc w l"
  using assms
proof (induction l arbitrary: w)
  case Nil
  show ?case by (simp add: width_of_line_loop.simps)
next
  case (Cons c l)
  then have nl: "c \<noteq> CHR 0x0A" and l: "CHR 0x0A \<notin> set l" by auto
  show ?case
  proof (cases "FT_Load_Char fc c")
    case None
    have "width_of_line_loop fc w ((c # l) @ CHR 0x0A # rest) = None"
      by (rule width_of_line_loop_failing_load [of c]) (simp_all add: nl None)
    moreover have "width_of_line_loop fc w (c # l) = None"
      by (rule width_of_line_loop_failing_load [of c]) (simp_all add: nl None)
    ultimately show ?thesis by simp
  next
    case (Some slot)
    show ?thesis
      by (subst width_of_line_loop.simps, subst (2) width_of_line_loop.simps)
         (simp add: nl Some Let_def Cons.IH [OF l])
  qed
qed

lemma width_of_line_stops_at_newline:
  "CHR 0x0A \<notin> set l \<Longrightarrow> width_of_line fc (l @ CHR 0x0A # rest) = width_of_line fc l"
  by (simp add: width_of_line_def width_of_line_loop_stops_at_newline)

lemma sum_list_nonneg_le:
  "\<forall>c \<in> set ext. 0 \<le> (f c :: int) \<Longrightarrow> 0 \<le> sum_list (map f ext)"
  by (induction ext) auto

text \<open>
  C1 (\<open>width_of_line\<close>, a failing glyph load): when a character of the line fails to
  load, the loop of \<open>width_of_line\<close> loads the same character again and again and
  never returns. The failing character is not skipped and the rest of the line is not
  measured.
\<close>

theorem width_of_line_failing_load_no_return:
  assumes "c \<in> set (takeWhile (\<lambda>c. c \<noteq> CHR 0x0A) str)"
    and "FT_Load_Char fc c = None"
  shows "width_of_line fc str = None"
  using assms by (simp add: width_of_line_def width_of_line_loop_failing_load)

theorem width_of_line_failing_load_no_return_witness:
  "CHR ''b'' \<in> set (takeWhile (\<lambda>c. c \<noteq> CHR 0x0A) ''abc'')
   \<and> FT_Load_Char face_without_b (CHR ''b'') = None
   \<and> width_of_line face_without_b ''abc'' = None"
proof -
  have m: "CHR ''b'' \<in> set (takeWhile (\<lambda>c. c \<noteq> CHR 0x0A) ''abc'')"
    by simp
  have f: "FT_Load_Char face_without_b (CHR ''b'') = None"
    by (simp add: face_without_b_def)
  from m f width_of_line_failing_load_no_return [OF m f] show ?thesis
    by blast
qed

text \<open>
  C8 (\<open>width_of_line\<close>, the sum and its growth): for a text without a newline whose
  characters all load, \<open>width_of_line\<close> returns the sum, over the characters, of the
  advance in whole pixels plus the absolute value of a negative left bearing, as an
  \<^verbatim>\<open>FT_Int\<close>. When moreover no character has a negative width and the sum of the
  longer text is below \<open>2 ^ 31\<close>, the result is that sum and it does not decrease when
  characters are appended.
\<close>

theorem width_of_line_sum_monotone:
  assumes "\<forall>c \<in> set (str @ ext). c \<noteq> CHR 0x0A \<and> FT_Load_Char fc c \<noteq> None"
  shows "width_of_line fc str = Some (to_FT_Int (line_width_sum fc str))
       \<and> ((\<forall>c \<in> set (str @ ext). 0 \<le> char_width fc c) \<and> line_width_sum fc (str @ ext) < 2 ^ 31
          \<longrightarrow> width_of_line fc str = Some (line_width_sum fc str)
              \<and> width_of_line fc (str @ ext) = Some (line_width_sum fc (str @ ext))
              \<and> line_width_sum fc str \<le> line_width_sum fc (str @ ext))"
proof (intro conjI impI)
  from assms have s: "\<forall>c \<in> set str. c \<noteq> CHR 0x0A \<and> FT_Load_Char fc c \<noteq> None" by simp
  have z: "to_FT_Int 0 = 0" by (simp add: to_FT_Int_def)
  show eq: "width_of_line fc str = Some (to_FT_Int (line_width_sum fc str))"
    using width_of_line_loop_sum [OF s, of 0] by (simp add: width_of_line_def z)
  have eq': "width_of_line fc (str @ ext) = Some (to_FT_Int (line_width_sum fc (str @ ext)))"
    using width_of_line_loop_sum [OF assms, of 0] by (simp add: width_of_line_def z)
  assume h: "(\<forall>c \<in> set (str @ ext). 0 \<le> char_width fc c) \<and> line_width_sum fc (str @ ext) < 2 ^ 31"
  then have "0 \<le> line_width_sum fc str" and e0: "0 \<le> line_width_sum fc ext"
    unfolding line_width_sum_def by (auto intro!: sum_list_nonneg_le)
  moreover have split: "line_width_sum fc (str @ ext) = line_width_sum fc str + line_width_sum fc ext"
    by (simp add: line_width_sum_def)
  ultimately have r1: "to_FT_Int (line_width_sum fc str) = line_width_sum fc str"
    and r2: "to_FT_Int (line_width_sum fc (str @ ext)) = line_width_sum fc (str @ ext)"
    using h by (auto intro!: to_FT_Int_id)
  from eq r1 show "width_of_line fc str = Some (line_width_sum fc str)" by simp
  from eq' r2 show "width_of_line fc (str @ ext) = Some (line_width_sum fc (str @ ext))" by simp
  from split e0 show "line_width_sum fc str \<le> line_width_sum fc (str @ ext)" by simp
qed

theorem width_of_line_sum_monotone_witness:
  "width_of_line face_plain ''ab'' = Some 20 \<and> width_of_line face_plain ''abc'' = Some 30"
proof -
  have cw: "char_width face_plain c = 10" for c
    by (simp add: char_width_def face_plain_def glyph_1x1_def)
  have a: "\<forall>c \<in> set (''ab'' @ ''c''). c \<noteq> CHR 0x0A \<and> FT_Load_Char face_plain c \<noteq> None"
    by (simp add: face_plain_def)
  have b: "(\<forall>c \<in> set (''ab'' @ ''c''). 0 \<le> char_width face_plain c)
           \<and> line_width_sum face_plain (''ab'' @ ''c'') < 2 ^ 31"
    by (simp add: cw line_width_sum_def)
  from width_of_line_sum_monotone [OF a] b
  have "width_of_line face_plain ''ab'' = Some (line_width_sum face_plain ''ab'')
        \<and> width_of_line face_plain (''ab'' @ ''c'') = Some (line_width_sum face_plain (''ab'' @ ''c''))"
    by blast
  then show ?thesis by (simp add: line_width_sum_def cw)
qed

text \<open>
  With a glyph of negative advance the width decreases when the character is appended.
\<close>

theorem width_of_line_monotone_counterexample:
  "width_of_line face_negative_advance ''a'' = Some 10
   \<and> width_of_line face_negative_advance ''ab'' = Some 0"
  by (simp add: width_of_line_def width_of_line_loop.simps face_negative_advance_def
      glyph_1x1_def to_FT_Int_def)

subsection \<open>The bounding box\<close>

lemma strchr_no_newline: "c \<notin> set l \<Longrightarrow> strchr l c = None"
  by (induction l) auto

lemma strchr_first_newline: "c \<notin> set l \<Longrightarrow> strchr (l @ c # rest) c = Some (c # rest)"
  by (induction l) auto

lemma size_control_loop_lines:
  assumes "lines \<noteq> []"
    and "\<forall>l \<in> set lines. l \<noteq> [] \<and> CHR 0x0A \<notin> set l"
    and "map (width_of_line fc) lines = map Some ws"
    and "\<forall>w \<in> set ws. 0 \<le> w"
    and "0 \<le> aw"
  shows "size_control_loop fc (Some (join_lines lines)) aw ah
         = Some (max aw (Max (set ws)),
                 to_unsigned_long (ah + int (length lines) * line_height_px fc))"
  using assms
proof (induction lines arbitrary: ws aw ah rule: join_lines.induct)
  case 1
  then show ?case by simp
next
  case (2 l)
  then obtain w where ws: "ws = [w]" and w: "width_of_line fc l = Some w" and w0: "0 \<le> w"
    by (cases ws) auto
  from 2 obtain c s where l: "l = c # s" by (cases l) auto
  from 2 have nl: "CHR 0x0A \<notin> set l" by simp
  from width_of_line_range [OF w] have "w < 2 ^ 31" by simp
  with w0 have conv: "to_uint32_t w = w" "to_unsigned_long w = w"
    by (simp_all add: to_uint32_t_def to_unsigned_long_def)
  have "size_control_loop fc (Some l) aw ah
        = size_control_loop fc None (max aw w) (to_unsigned_long (ah + line_height_px fc))"
    using w strchr_no_newline [OF nl] unfolding l
    by (subst size_control_loop.simps)
       (auto simp: Let_def conv line_height_px_def l max_def)
  then show ?case
    by (simp add: ws size_control_loop.simps [of fc None])
next
  case (3 l l2 ls)
  then obtain w ws' where ws: "ws = w # ws'" and w: "width_of_line fc l = Some w"
    and ws': "map (width_of_line fc) (l2 # ls) = map Some ws'"
    and w0: "0 \<le> w" and ws0: "\<forall>w \<in> set ws'. 0 \<le> w"
    by (cases ws) auto
  from 3 obtain c s where l: "l = c # s" by (cases l) auto
  from 3 have nl: "CHR 0x0A \<notin> set l" by simp
  from ws' have ne: "ws' \<noteq> []" by auto
  from width_of_line_range [OF w] have "w < 2 ^ 31" by simp
  with w0 have conv: "to_uint32_t w = w" "to_unsigned_long w = w"
    by (simp_all add: to_uint32_t_def to_unsigned_long_def)
  let ?rest = "join_lines (l2 # ls)"
  have w': "width_of_line fc (c # s @ CHR 0x0A # ?rest) = Some w"
    using width_of_line_stops_at_newline [OF nl, of fc ?rest] w by (simp add: l)
  have nl': "strchr (c # s @ CHR 0x0A # ?rest) (CHR 0x0A) = Some (CHR 0x0A # ?rest)"
    using strchr_first_newline [OF nl, of ?rest] by (simp add: l)
  have step: "size_control_loop fc (Some (join_lines (l # l2 # ls))) aw ah
        = size_control_loop fc (Some ?rest) (max aw w) (to_unsigned_long (ah + line_height_px fc))"
    by (subst size_control_loop.simps)
       (simp add: l w' nl' Let_def conv line_height_px_def max_def del: strchr.simps)
  have "size_control_loop fc (Some ?rest) (max aw w) (to_unsigned_long (ah + line_height_px fc))
        = Some (max (max aw w) (Max (set ws')),
                to_unsigned_long (to_unsigned_long (ah + line_height_px fc)
                                  + int (length (l2 # ls)) * line_height_px fc))"
    using 3 ws' ws0 by (intro "3.IH") auto
  moreover have "to_unsigned_long (to_unsigned_long (ah + line_height_px fc)
                                  + int (length (l2 # ls)) * line_height_px fc)
      = to_unsigned_long (ah + int (length (l # l2 # ls)) * line_height_px fc)"
    unfolding to_unsigned_long_add_left by (simp add: algebra_simps)
  moreover have "max (max aw w) (Max (set ws')) = max aw (Max (set ws))"
    using ne by (simp add: ws max.assoc)
  ultimately show ?case
    using step by simp
qed

lemma size_control_box_floor:
  assumes "0 \<le> aw" and "aw < 2 ^ 31"
  shows "(if to_long aw < min_width then to_unsigned_long min_width else aw)
         = to_unsigned_long (max aw min_width)"
proof -
  from assms have "to_long aw = aw" by (intro to_long_id) auto
  moreover from assms have "to_unsigned_long aw = aw" by (intro to_unsigned_long_id) auto
  ultimately show ?thesis by (simp add: max_def)
qed

lemma size_control_visible_empty_and_lines:
  assumes "\<not> is_hidden label"
  shows "size_control (label\<lparr>label_text := None\<rparr>)
           = Some (label\<lparr>label_text := None,
                area := (area label)\<lparr>rect_width := to_unsigned_long (max 0 (label_width label)),
                                     rect_height := 0\<rparr>\<rparr>)
       \<and> size_control (label\<lparr>label_text := Some []\<rparr>)
           = Some (label\<lparr>label_text := Some [],
                area := (area label)\<lparr>rect_width := to_unsigned_long (max 0 (label_width label)),
                                     rect_height := 0\<rparr>\<rparr>)
       \<and> (lines \<noteq> [] \<and> (\<forall>l \<in> set lines. l \<noteq> [] \<and> CHR 0x0A \<notin> set l)
            \<and> map (width_of_line (face label)) lines = map Some ws \<and> (\<forall>w \<in> set ws. 0 \<le> w)
          \<longrightarrow> size_control (label\<lparr>label_text := Some (join_lines lines)\<rparr>)
                = Some (label\<lparr>label_text := Some (join_lines lines),
                     area := (area label)
                       \<lparr>rect_width := to_unsigned_long (max (Max (set ws)) (label_width label)),
                        rect_height :=
                          to_unsigned_long (int (length lines) * line_height_px (face label))\<rparr>\<rparr>))"
proof (intro conjI impI)
  have fl: "(if to_long 0 < label_width label then to_unsigned_long (label_width label) else 0)
            = to_unsigned_long (max 0 (label_width label))"
    using size_control_box_floor [of 0 "label_width label"] by simp
  show "size_control (label\<lparr>label_text := None\<rparr>)
           = Some (label\<lparr>label_text := None,
                area := (area label)\<lparr>rect_width := to_unsigned_long (max 0 (label_width label)),
                                     rect_height := 0\<rparr>\<rparr>)"
    using assms fl
    by (simp add: size_control_def size_control_box_def size_control_loop.simps)
  show "size_control (label\<lparr>label_text := Some []\<rparr>)
           = Some (label\<lparr>label_text := Some [],
                area := (area label)\<lparr>rect_width := to_unsigned_long (max 0 (label_width label)),
                                     rect_height := 0\<rparr>\<rparr>)"
    using assms fl
    by (simp add: size_control_def size_control_box_def size_control_loop.simps)
next
  assume h: "lines \<noteq> [] \<and> (\<forall>l \<in> set lines. l \<noteq> [] \<and> CHR 0x0A \<notin> set l)
            \<and> map (width_of_line (face label)) lines = map Some ws \<and> (\<forall>w \<in> set ws. 0 \<le> w)"
  then have ws: "map (width_of_line (face label)) lines = map Some ws" by simp
  from h have ne: "ws \<noteq> []" by auto
  have loop: "size_control_loop (face label) (Some (join_lines lines)) 0 0
        = Some (max 0 (Max (set ws)),
                to_unsigned_long (0 + int (length lines) * line_height_px (face label)))"
    using h by (intro size_control_loop_lines) auto
  have rng: "\<forall>w \<in> set ws. w < 2 ^ 31"
  proof
    fix w assume "w \<in> set ws"
    then have "Some w \<in> set (map Some ws)" by simp
    with ws have "Some w \<in> set (map (width_of_line (face label)) lines)" by simp
    then obtain l where "width_of_line (face label) l = Some w" by auto
    from width_of_line_range [OF this] show "w < 2 ^ 31" by simp
  qed
  from ne have mem: "Max (set ws) \<in> set ws" by (intro Max_in) auto
  with h rng have m0: "0 \<le> Max (set ws)" and m1: "Max (set ws) < 2 ^ 31" by auto
  from m0 have mx: "max 0 (Max (set ws)) = Max (set ws)" by simp
  show "size_control (label\<lparr>label_text := Some (join_lines lines)\<rparr>)
                = Some (label\<lparr>label_text := Some (join_lines lines),
                     area := (area label)
                       \<lparr>rect_width := to_unsigned_long (max (Max (set ws)) (label_width label)),
                        rect_height :=
                          to_unsigned_long (int (length lines) * line_height_px (face label))\<rparr>\<rparr>)"
    using assms loop size_control_box_floor [OF m0 m1, of "label_width label"]
    by (simp add: size_control_def size_control_box_def mx)
qed

text \<open>
  C3 (\<open>size_control\<close>, the spec's \<open>measure_label\<close>): \<open>size_control\<close> leaves a
  hidden label as it is. For a label that is not hidden, a text that is absent or empty
  gives the height 0 and the width \<open>max 0 (label_width label)\<close>; a text of N non-empty
  lines, a newline between two of them, whose lines have the widths \<open>ws\<close>, none
  negative, gives the height N times \<open>line_height_px\<close> and the width
  \<open>max (Max (set ws)) (label_width label)\<close>, both as an \<^verbatim>\<open>unsigned long\<close>.
\<close>

theorem size_control_empty_and_lines:
  "(is_hidden label \<longrightarrow> size_control label = Some label)
   \<and> (\<not> is_hidden label \<longrightarrow>
        size_control (label\<lparr>label_text := None\<rparr>)
           = Some (label\<lparr>label_text := None,
                area := (area label)\<lparr>rect_width := to_unsigned_long (max 0 (label_width label)),
                                     rect_height := 0\<rparr>\<rparr>)
       \<and> size_control (label\<lparr>label_text := Some []\<rparr>)
           = Some (label\<lparr>label_text := Some [],
                area := (area label)\<lparr>rect_width := to_unsigned_long (max 0 (label_width label)),
                                     rect_height := 0\<rparr>\<rparr>)
       \<and> (lines \<noteq> [] \<and> (\<forall>l \<in> set lines. l \<noteq> [] \<and> CHR 0x0A \<notin> set l)
            \<and> map (width_of_line (face label)) lines = map Some ws \<and> (\<forall>w \<in> set ws. 0 \<le> w)
          \<longrightarrow> size_control (label\<lparr>label_text := Some (join_lines lines)\<rparr>)
                = Some (label\<lparr>label_text := Some (join_lines lines),
                     area := (area label)
                       \<lparr>rect_width := to_unsigned_long (max (Max (set ws)) (label_width label)),
                        rect_height :=
                          to_unsigned_long (int (length lines) * line_height_px (face label))\<rparr>\<rparr>)))"
proof (rule conjI; rule impI)
  assume "is_hidden label"
  then show "size_control label = Some label"
    by (simp add: size_control_def)
next
  assume "\<not> is_hidden label"
  then show "size_control (label\<lparr>label_text := None\<rparr>)
           = Some (label\<lparr>label_text := None,
                area := (area label)\<lparr>rect_width := to_unsigned_long (max 0 (label_width label)),
                                     rect_height := 0\<rparr>\<rparr>)
       \<and> size_control (label\<lparr>label_text := Some []\<rparr>)
           = Some (label\<lparr>label_text := Some [],
                area := (area label)\<lparr>rect_width := to_unsigned_long (max 0 (label_width label)),
                                     rect_height := 0\<rparr>\<rparr>)
       \<and> (lines \<noteq> [] \<and> (\<forall>l \<in> set lines. l \<noteq> [] \<and> CHR 0x0A \<notin> set l)
            \<and> map (width_of_line (face label)) lines = map Some ws \<and> (\<forall>w \<in> set ws. 0 \<le> w)
          \<longrightarrow> size_control (label\<lparr>label_text := Some (join_lines lines)\<rparr>)
                = Some (label\<lparr>label_text := Some (join_lines lines),
                     area := (area label)
                       \<lparr>rect_width := to_unsigned_long (max (Max (set ws)) (label_width label)),
                        rect_height :=
                          to_unsigned_long (int (length lines) * line_height_px (face label))\<rparr>\<rparr>))"
    by (rule size_control_visible_empty_and_lines)
qed

theorem size_control_empty_and_lines_witness:
  "\<not> is_hidden shown_label
   \<and> size_control (shown_label\<lparr>label_text := Some (join_lines [''ab'', ''c''])\<rparr>)
       = Some (shown_label\<lparr>label_text := Some (join_lines [''ab'', ''c'']),
            area := \<lparr>rect_x = 0, rect_y = 0, rect_width = 30, rect_height = 24\<rparr>\<rparr>)"
proof -
  have v: "\<not> is_hidden shown_label"
    by (simp add: shown_label_def)
  have f: "face shown_label = face_plain" and a: "area shown_label = \<lparr>rect_x = 0, rect_y = 0, rect_width = 30, rect_height = 0\<rparr>"
    and mw: "label_width shown_label = 30"
    by (simp_all add: shown_label_def create_control_def)
  have ws: "map (width_of_line (face shown_label)) [''ab'', ''c''] = map Some [20, 10]"
    by (simp add: f width_of_line_def width_of_line_loop.simps face_plain_def glyph_1x1_def
        to_FT_Int_def)
  have lh: "line_height_px (face shown_label) = 12"
    by (simp add: f line_height_px_def face_plain_def to_long_def)
  have h: "[''ab'', ''c''] \<noteq> [] \<and> (\<forall>l \<in> set [''ab'', ''c'']. l \<noteq> [] \<and> CHR 0x0A \<notin> set l)
           \<and> map (width_of_line (face shown_label)) [''ab'', ''c''] = map Some [20, 10]
           \<and> (\<forall>w \<in> set [20, 10 :: int]. 0 \<le> w)"
    using ws by simp
  from size_control_empty_and_lines [of shown_label "[''ab'', ''c'']" "[20, 10]"] v h
  have "size_control (shown_label\<lparr>label_text := Some (join_lines [''ab'', ''c''])\<rparr>)
                = Some (shown_label\<lparr>label_text := Some (join_lines [''ab'', ''c'']),
                     area := (area shown_label)
                       \<lparr>rect_width := to_unsigned_long (max (Max (set [20, 10])) (label_width shown_label)),
                        rect_height :=
                          to_unsigned_long (int (length [''ab'', ''c'']) * line_height_px (face shown_label))\<rparr>\<rparr>)"
    by blast
  then show ?thesis
    using v by (simp add: lh mw a to_unsigned_long_def)
qed

text \<open>
  The empty text with a requested width of 30 gives a box that is 30 wide, not 0.
\<close>

theorem size_control_empty_text_counterexample:
  "size_control (shown_label\<lparr>label_text := Some []\<rparr>)
     = Some (shown_label\<lparr>label_text := Some [],
          area := \<lparr>rect_x = 0, rect_y = 0, rect_width = 30, rect_height = 0\<rparr>\<rparr>)"
  by (simp add: size_control_def size_control_box_def size_control_loop.simps shown_label_def
      create_control_def to_long_def to_unsigned_long_def)

lemma face_plain_metrics:
  "ascender face_plain = 640" "descender face_plain = - 128" "metrics_height face_plain = 832"
  by (simp_all add: face_plain_def)

lemma wl_plain: "width_of_line face_plain ''a'' = Some 10" "width_of_line face_plain ''ab'' = Some 20"
  by (simp_all add: width_of_line_def width_of_line_loop.simps face_plain_def glyph_1x1_def
      to_FT_Int_def)

lemma box_plain_a: "size_control_box face_plain (Some ''a'') (- 1) = Some (10, 12)"
  by (simp add: size_control_box_def size_control_loop.simps wl_plain to_uint32_t_def
      to_unsigned_long_def to_long_def face_plain_metrics)

lemma box_plain_ab: "size_control_box face_plain (Some ''ab'') (- 1) = Some (20, 12)"
  by (simp add: size_control_box_def size_control_loop.simps wl_plain to_uint32_t_def
      to_unsigned_long_def to_long_def face_plain_metrics)

lemma face_of_size_metrics:
  "ascender (face_of_size n) = 64 * n" "descender (face_of_size n) = 0"
  by (simp_all add: face_of_size_def)

lemma wl_size14: "width_of_line (face_of_size 14) ''ab'' = Some 28"
  by (simp add: width_of_line_def width_of_line_loop.simps face_of_size_def glyph_1x1_def
      to_FT_Int_def)

lemma box_size14: "size_control_box (face_of_size 14) (Some ''ab'') 30 = Some (30, 14)"
  by (simp add: size_control_box_def size_control_loop.simps wl_size14 to_uint32_t_def
      to_unsigned_long_def to_long_def face_of_size_metrics)

lemma example_set_size_14px:
  "example_set_size (FT_Set_Pixel_Sizes 0 14) fc = Some (face_of_size 14)"
  by (simp add: example_set_size_def)

lemma example_set_size_14pt:
  "example_set_size (FT_Set_Char_Size 896 0 72 0) fc = Some (face_of_size 14)"
  by (simp add: example_set_size_def)

subsection \<open>Show, the setters and the repaint requests\<close>

lemma trigger_redraw_shown:
  assumes "\<not> is_hidden label" and "display label = Some d"
    and "size_control_box (face label) (label_text label) (label_width label) = Some (w, h)"
  shows "trigger_redraw label True
         = Some (label\<lparr>area := (area label)\<lparr>rect_width := w, rect_height := h\<rparr>\<rparr>,
                 [draw_area_of d (area label)])"
  using assms by (simp add: trigger_redraw_def size_control_def)

lemma trigger_redraw_not_shown:
  assumes "is_hidden label \<or> display label = None"
  shows "trigger_redraw label adjust_size = Some (label, [])"
  using assms by (auto simp: trigger_redraw_def split: option.splits)

text \<open>
  C4 (\<open>show_control\<close>, the repaint request): when the box of the label's state can be
  computed, \<open>show_control\<close> stores the display, the new position and the newly
  computed size in the label. With a display, the one repaint it requests is for the
  area the label had before the call: \<open>dirty_area\<close> is read before the label is
  moved and sized. Without a display it requests none.
\<close>

theorem show_control_repaints_previous_area:
  assumes "size_control_box (face label) (label_text label) (label_width label) = Some (w, h)"
  shows "show_control label disp x y
         = Some (label\<lparr>display := disp,
                        area := \<lparr>rect_x = x, rect_y = y, rect_width = w, rect_height = h\<rparr>,
                        is_hidden := False\<rparr>,
                 (case disp of None \<Rightarrow> [] | Some d \<Rightarrow> [draw_area_of d (area label)]),
                 True)"
  using assms by (cases disp) (simp_all add: show_control_def size_control_def Let_def)

theorem show_control_repaints_previous_area_witness:
  "show_control unattached_label (Some 0) 5 7
     = Some (unattached_label\<lparr>display := Some 0,
               area := \<lparr>rect_x = 5, rect_y = 7, rect_width = 10, rect_height = 12\<rparr>\<rparr>,
             [ply_pixel_display_draw_area 0 0 0 10 12], True)"
proof -
  have "size_control_box (face unattached_label) (label_text unattached_label)
          (label_width unattached_label) = Some (10, 12)"
    by (simp add: unattached_label_def create_control_def box_plain_a)
  from show_control_repaints_previous_area [OF this, of "Some 0" 5 7] show ?thesis
    by (simp add: draw_area_of_def unattached_label_def create_control_def)
qed

text \<open>
  A created label with the text a, shown at (5, 7): the new box is 10 by 12 at (5, 7),
  the repaint requested is for the empty area at (0, 0).
\<close>

theorem show_control_repaints_previous_area_counterexample:
  "show_control ((create_control face_plain)\<lparr>label_text := Some ''a''\<rparr>) (Some 0) 5 7
     = Some ((create_control face_plain)
               \<lparr>display := Some 0,
                area := \<lparr>rect_x = 5, rect_y = 7, rect_width = 10, rect_height = 12\<rparr>,
                label_text := Some ''a'', is_hidden := False\<rparr>,
             [ply_pixel_display_draw_area 0 0 0 0 0], True)"
  by (simp add: show_control_def size_control_def create_control_def box_plain_a draw_area_of_def)

text \<open>
  C7 (\<open>set_font_for_control\<close>): the descriptions \<open>Sans 14\<close>, \<open>Sans 14px\<close>,
  \<open>Sans\<close> and \<open>Sans bogus\<close> request 14 points at 72 dpi, 14 pixels, and, for
  the last two, the default of 25 points at 72 dpi. Whether FreeType accepts the request
  or not, a label that is shown on a display gets the box of its state under the
  resulting face and one repaint is requested, for the area it had before; a label that
  is hidden or has no display gets neither.
\<close>

theorem set_font_for_control_request_and_redraw:
  "set_font_size_request ''Sans 14'' = FT_Set_Char_Size (14 * 64) 0 72 0
   \<and> set_font_size_request ''Sans 14px'' = FT_Set_Pixel_Sizes 0 14
   \<and> set_font_size_request ''Sans'' = FT_Set_Char_Size (25 * 64) 0 72 0
   \<and> set_font_size_request ''Sans bogus'' = FT_Set_Char_Size (25 * 64) 0 72 0
   \<and> (\<not> is_hidden label \<and> display label = Some d
        \<and> size_control_box
             (case ft_set_size (set_font_size_request fontdesc) (face label) of
                None \<Rightarrow> face label | Some fc \<Rightarrow> fc)
             (label_text label) (label_width label) = Some (w, h)
      \<longrightarrow> set_font_for_control ft_set_size label fontdesc
          = Some (label\<lparr>face := (case ft_set_size (set_font_size_request fontdesc) (face label) of
                                     None \<Rightarrow> face label | Some fc \<Rightarrow> fc),
                         area := (area label)\<lparr>rect_width := w, rect_height := h\<rparr>\<rparr>,
                  [draw_area_of d (area label)]))
   \<and> (is_hidden label \<or> display label = None
      \<longrightarrow> set_font_for_control ft_set_size label fontdesc
          = Some (label\<lparr>face := (case ft_set_size (set_font_size_request fontdesc) (face label) of
                                     None \<Rightarrow> face label | Some fc \<Rightarrow> fc)\<rparr>, []))"
proof (intro conjI impI)
  show "set_font_size_request ''Sans 14'' = FT_Set_Char_Size (14 * 64) 0 72 0"
    by (simp add: set_font_size_request_def strtoul_def isspace_def isdigit_def
      to_long_def to_unsigned_long_def to_uint32_t_def)
  show "set_font_size_request ''Sans 14px'' = FT_Set_Pixel_Sizes 0 14"
    by (simp add: set_font_size_request_def strtoul_def isspace_def isdigit_def
      to_long_def to_unsigned_long_def to_uint32_t_def)
  show "set_font_size_request ''Sans'' = FT_Set_Char_Size (25 * 64) 0 72 0"
    by (simp add: set_font_size_request_def strtoul_def isspace_def isdigit_def
      to_long_def to_unsigned_long_def to_uint32_t_def)
  show "set_font_size_request ''Sans bogus'' = FT_Set_Char_Size (25 * 64) 0 72 0"
    by (simp add: set_font_size_request_def strtoul_def isspace_def isdigit_def
      to_long_def to_unsigned_long_def to_uint32_t_def)
next
  let ?fc = "case ft_set_size (set_font_size_request fontdesc) (face label) of
                None \<Rightarrow> face label | Some fc \<Rightarrow> fc"
  assume h: "\<not> is_hidden label \<and> display label = Some d
        \<and> size_control_box ?fc (label_text label) (label_width label) = Some (w, h)"
  have "trigger_redraw (label\<lparr>face := ?fc\<rparr>) True
        = Some (label\<lparr>face := ?fc\<rparr>\<lparr>area := (area (label\<lparr>face := ?fc\<rparr>))\<lparr>rect_width := w, rect_height := h\<rparr>\<rparr>,
                 [draw_area_of d (area (label\<lparr>face := ?fc\<rparr>))])"
    using h by (intro trigger_redraw_shown) simp_all
  then show "set_font_for_control ft_set_size label fontdesc
          = Some (label\<lparr>face := ?fc, area := (area label)\<lparr>rect_width := w, rect_height := h\<rparr>\<rparr>,
                  [draw_area_of d (area label)])"
    by (simp add: set_font_for_control_def Let_def)
next
  let ?fc = "case ft_set_size (set_font_size_request fontdesc) (face label) of
                None \<Rightarrow> face label | Some fc \<Rightarrow> fc"
  assume h: "is_hidden label \<or> display label = None"
  have "trigger_redraw (label\<lparr>face := ?fc\<rparr>) True = Some (label\<lparr>face := ?fc\<rparr>, [])"
    using h by (intro trigger_redraw_not_shown) simp
  then show "set_font_for_control ft_set_size label fontdesc = Some (label\<lparr>face := ?fc\<rparr>, [])"
    by (simp add: set_font_for_control_def Let_def)
qed

theorem set_font_for_control_request_and_redraw_witness:
  "set_font_for_control example_set_size (shown_label\<lparr>label_text := Some ''ab''\<rparr>) ''Sans 14px''
     = Some (shown_label\<lparr>label_text := Some ''ab'', face := face_of_size 14,
               area := \<lparr>rect_x = 0, rect_y = 0, rect_width = 30, rect_height = 14\<rparr>\<rparr>,
             [ply_pixel_display_draw_area 0 0 0 30 0])
   \<and> set_font_for_control example_set_size hidden_label ''Sans 14px''
     = Some (hidden_label\<lparr>face := face_of_size 14\<rparr>, [])"
proof -
  let ?l = "shown_label\<lparr>label_text := Some ''ab''\<rparr>"
  have r: "set_font_size_request ''Sans 14px'' = FT_Set_Pixel_Sizes 0 14"
    using set_font_for_control_request_and_redraw by blast
  have a: "\<not> is_hidden ?l \<and> display ?l = Some 0
        \<and> size_control_box
             (case example_set_size (set_font_size_request ''Sans 14px'') (face ?l) of
                None \<Rightarrow> face ?l | Some fc \<Rightarrow> fc)
             (label_text ?l) (label_width ?l) = Some (30, 14)"
    by (simp add: r example_set_size_14px box_size14 shown_label_def create_control_def)
  have b: "is_hidden hidden_label \<or> display hidden_label = None"
    by (simp add: hidden_label_def create_control_def)
  from set_font_for_control_request_and_redraw
         [of ?l 0 example_set_size "''Sans 14px''" 30 14] a
  have 1: "set_font_for_control example_set_size ?l ''Sans 14px''
          = Some (?l\<lparr>face := (case example_set_size (set_font_size_request ''Sans 14px'') (face ?l) of
                                     None \<Rightarrow> face ?l | Some fc \<Rightarrow> fc),
                         area := (area ?l)\<lparr>rect_width := 30, rect_height := 14\<rparr>\<rparr>,
                  [draw_area_of 0 (area ?l)])"
    by blast
  from set_font_for_control_request_and_redraw
         [of hidden_label 0 example_set_size "''Sans 14px''" 30 14] b
  have 2: "set_font_for_control example_set_size hidden_label ''Sans 14px''
          = Some (hidden_label\<lparr>face := (case example_set_size (set_font_size_request ''Sans 14px'') (face hidden_label) of
                                     None \<Rightarrow> face hidden_label | Some fc \<Rightarrow> fc)\<rparr>, [])"
    by blast
  from 1 2 show ?thesis
    by (simp add: r example_set_size_14px draw_area_of_def shown_label_def create_control_def)
qed

text \<open>
  On a hidden label \<open>set_font_for_control\<close> requests no repaint and leaves the area
  as it was, here empty, where the box of the state is 28 by 14.
\<close>

theorem set_font_for_control_hidden_counterexample:
  "set_font_for_control example_set_size hidden_label ''Sans 14''
     = Some (hidden_label\<lparr>face := face_of_size 14\<rparr>, [])
   \<and> area (hidden_label\<lparr>face := face_of_size 14\<rparr>)
     = \<lparr>rect_x = 0, rect_y = 0, rect_width = 0, rect_height = 0\<rparr>
   \<and> size_control_box (face_of_size 14) (Some ''ab'') (- 1) = Some (28, 14)"
proof -
  have r: "set_font_size_request ''Sans 14'' = FT_Set_Char_Size (14 * 64) 0 72 0"
    by (simp add: set_font_size_request_def strtoul_def isspace_def isdigit_def
      to_long_def to_unsigned_long_def to_uint32_t_def)
  have b: "size_control_box (face_of_size 14) (Some ''ab'') (- 1) = Some (28, 14)"
    by (simp add: size_control_box_def size_control_loop.simps wl_size14 to_uint32_t_def
      to_unsigned_long_def to_long_def face_of_size_metrics)
  show ?thesis
    by (simp add: set_font_for_control_def r example_set_size_14pt trigger_redraw_def
        hidden_label_def create_control_def b)
qed

text \<open>
  C10 (\<open>set_text_for_control\<close> with a null text): the call changes nothing when the
  label has no text yet, and passes the null pointer to \<^verbatim>\<open>strdup\<close> when it has one.
\<close>

theorem set_text_for_control_null:
  "set_text_for_control label None
     = (if label_text label = None then Some (Inr (label, []))
        else Some (Inl Null_Pointer_Dereference))"
  by (simp add: set_text_for_control_def)

theorem set_text_for_control_null_witness:
  "set_text_for_control (create_control face_plain) None
     = Some (Inr (create_control face_plain, []))"
  using set_text_for_control_null [of "create_control face_plain"]
  by (simp add: create_control_def)

text \<open>On a label with the text ab the call dereferences the null pointer.\<close>

theorem set_text_for_control_null_counterexample:
  "set_text_for_control hidden_label None = Some (Inl Null_Pointer_Dereference)"
  by (simp add: set_text_for_control_def hidden_label_def create_control_def)

subsection \<open>The cached box\<close>

lemma size_control_box_is_current:
  assumes "size_control label = Some label1"
  shows "is_hidden label1 = is_hidden label \<and> display label1 = display label
     \<and> face label1 = face label \<and> label_text label1 = label_text label
     \<and> label_width label1 = label_width label
     \<and> rect_x (area label1) = rect_x (area label) \<and> rect_y (area label1) = rect_y (area label)
     \<and> (is_hidden label
         \<or> size_control_box (face label1) (label_text label1) (label_width label1)
            = Some (rect_width (area label1), rect_height (area label1)))"
proof (cases "is_hidden label")
  case True
  with assms show ?thesis by (simp add: size_control_def)
next
  case False
  with assms obtain w h where
    box: "size_control_box (face label) (label_text label) (label_width label) = Some (w, h)"
    and l1: "label1 = label\<lparr>area := (area label)\<lparr>rect_width := w, rect_height := h\<rparr>\<rparr>"
    by (auto simp: size_control_def split: bind_splits)
  then show ?thesis by simp
qed

lemma trigger_redraw_box_is_current:
  assumes "trigger_redraw label True = Some (label1, calls)"
  shows "box_is_current label1"
proof (cases "display label")
  case None
  with assms show ?thesis by (simp add: trigger_redraw_def box_is_current_def)
next
  case (Some d)
  show ?thesis
  proof (cases "is_hidden label")
    case True
    with assms Some show ?thesis by (simp add: trigger_redraw_def box_is_current_def)
  next
    case False
    with assms Some have "size_control label = Some label1"
      by (auto simp: trigger_redraw_def Let_def split: bind_splits)
    from size_control_box_is_current [OF this] False show ?thesis
      by (auto simp: box_is_current_def)
  qed
qed

lemma trigger_redraw_color_box_is_current:
  assumes "trigger_redraw label False = Some (label1, calls)"
  shows "label1 = label"
  using assms by (auto simp: trigger_redraw_def Let_def split: option.splits if_splits)

lemma operations_keep_box_current:
  assumes "box_is_current label"
    and "run_operation ft_set_size label op = Some (Inr label1)"
  shows "box_is_current label1"
proof (cases op)
  case (Show_Control disp x y)
  with assms(2) obtain calls r where "show_control label disp x y = Some (label1, calls, r)"
    by (auto simp: run_operation_def)
  then obtain label2 where
    s: "size_control (label\<lparr>display := disp,
          area := (area label)\<lparr>rect_x := x, rect_y := y\<rparr>, is_hidden := False\<rparr>) = Some label2"
    and l1: "label1 = label2\<lparr>is_hidden := False\<rparr>"
    by (auto simp: show_control_def Let_def split: bind_splits)
  from size_control_box_is_current [OF s] l1 show ?thesis
    by (auto simp: box_is_current_def)
next
  case Hide_Control
  with assms(2) show ?thesis
    by (auto simp: run_operation_def hide_control_def Let_def box_is_current_def)
next
  case (Draw_Control pixel_buffer x y w h)
  with assms(2) obtain z :: "error + target" where
    "map_sum id (\<lambda>tg. label) z = Inr label1"
    by (auto simp: run_operation_def)
  then have "label1 = label" by (cases z) auto
  with assms(1) show ?thesis by simp
next
  case (Set_Text_For_Control str)
  show ?thesis
  proof (cases "label_text label = None \<and> str = None")
    case True
    with assms Set_Text_For_Control show ?thesis
      by (auto simp: run_operation_def set_text_for_control_def)
  next
    case False
    with assms(2) Set_Text_For_Control obtain s calls where
      "trigger_redraw (label\<lparr>label_text := Some s\<rparr>) True = Some (label1, calls)"
      by (auto simp: run_operation_def set_text_for_control_def split: option.splits)
    then show ?thesis by (rule trigger_redraw_box_is_current)
  qed
next
  case (Set_Alignment_For_Control al)
  show ?thesis
  proof (cases "alignment label \<noteq> al")
    case True
    with assms(2) Set_Alignment_For_Control obtain calls where
      "trigger_redraw (label\<lparr>alignment := al\<rparr>) True = Some (label1, calls)"
      by (auto simp: run_operation_def set_alignment_for_control_def)
    then show ?thesis by (rule trigger_redraw_box_is_current)
  next
    case False
    with assms Set_Alignment_For_Control show ?thesis
      by (auto simp: run_operation_def set_alignment_for_control_def)
  qed
next
  case (Set_Width_For_Control w)
  show ?thesis
  proof (cases "label_width label \<noteq> w")
    case True
    with assms(2) Set_Width_For_Control obtain calls where
      "trigger_redraw (label\<lparr>label_width := w\<rparr>) True = Some (label1, calls)"
      by (auto simp: run_operation_def set_width_for_control_def)
    then show ?thesis by (rule trigger_redraw_box_is_current)
  next
    case False
    with assms Set_Width_For_Control show ?thesis
      by (auto simp: run_operation_def set_width_for_control_def)
  qed
next
  case (Set_Font_For_Control fontdesc)
  with assms(2) obtain label0 calls where
    "trigger_redraw label0 True = Some (label1, calls)"
    by (auto simp: run_operation_def set_font_for_control_def Let_def)
  then show ?thesis by (rule trigger_redraw_box_is_current)
next
  case (Set_Color_For_Control r g b a)
  with assms(2) obtain calls where
    t: "trigger_redraw (label\<lparr>red := r, green := g, blue := b, alpha := a\<rparr>) False
        = Some (label1, calls)"
    by (auto simp: run_operation_def set_color_for_control_def)
  from trigger_redraw_color_box_is_current [OF t] assms(1) show ?thesis
    by (simp add: box_is_current_def)
qed

text \<open>
  C9 (the cached box): \<open>box_is_current\<close> holds of a created label and every
  operation that returns keeps it: whenever the label is shown on a display, its cached
  width and height are those of the box of its text, face and requested width. After
  \<open>show_control\<close>, with or without a display, \<open>get_width_of_control\<close> and
  \<open>get_height_of_control\<close> give the width and height of that box.
\<close>

theorem box_is_current_invariant:
  "box_is_current (create_control fc)
   \<and> (box_is_current label \<and> run_operation ft_set_size label op = Some (Inr label1)
        \<longrightarrow> box_is_current label1)
   \<and> (size_control_box (face label) (label_text label) (label_width label) = Some (w, h)
        \<longrightarrow> (\<exists>label2 calls.
               show_control label disp x y = Some (label2, calls, True)
               \<and> face label2 = face label \<and> label_text label2 = label_text label
               \<and> label_width label2 = label_width label
               \<and> get_width_of_control label2 = to_long w
               \<and> get_height_of_control label2 = to_long h))"
proof (intro conjI impI)
  show "box_is_current (create_control fc)"
    by (simp add: box_is_current_def create_control_def)
next
  assume "box_is_current label \<and> run_operation ft_set_size label op = Some (Inr label1)"
  then show "box_is_current label1"
    using operations_keep_box_current by blast
next
  assume "size_control_box (face label) (label_text label) (label_width label) = Some (w, h)"
  then show "\<exists>label2 calls.
               show_control label disp x y = Some (label2, calls, True)
               \<and> face label2 = face label \<and> label_text label2 = label_text label
               \<and> label_width label2 = label_width label
               \<and> get_width_of_control label2 = to_long w
               \<and> get_height_of_control label2 = to_long h"
    by (simp add: show_control_def size_control_def Let_def get_width_of_control_def
        get_height_of_control_def)
qed

theorem box_is_current_invariant_witness:
  "box_is_current shown_label
   \<and> run_operation example_set_size shown_label (Set_Text_For_Control (Some ''ab''))
       = Some (Inr (shown_label\<lparr>label_text := Some ''ab'',
            area := \<lparr>rect_x = 0, rect_y = 0, rect_width = 30, rect_height = 12\<rparr>\<rparr>))
   \<and> box_is_current (shown_label\<lparr>label_text := Some ''ab'',
            area := \<lparr>rect_x = 0, rect_y = 0, rect_width = 30, rect_height = 12\<rparr>\<rparr>)"
proof -
  have b: "size_control_box face_plain (Some ''ab'') 30 = Some (30, 12)"
    by (simp add: size_control_box_def size_control_loop.simps wl_plain to_uint32_t_def
      to_unsigned_long_def to_long_def face_plain_metrics)
  have i: "box_is_current shown_label"
    by (simp add: box_is_current_def shown_label_def create_control_def size_control_box_def
        size_control_loop.simps to_long_def to_unsigned_long_def)
  have r: "run_operation example_set_size shown_label (Set_Text_For_Control (Some ''ab''))
       = Some (Inr (shown_label\<lparr>label_text := Some ''ab'',
            area := \<lparr>rect_x = 0, rect_y = 0, rect_width = 30, rect_height = 12\<rparr>\<rparr>))"
    by (simp add: run_operation_def set_text_for_control_def trigger_redraw_def
        size_control_def shown_label_def create_control_def b)
  from box_is_current_invariant [of face_plain shown_label example_set_size
      "Set_Text_For_Control (Some ''ab'')"] i r
  show ?thesis by blast
qed

text \<open>
  A label shown without a display is not hidden, and \<open>set_text_for_control\<close> does
  not size it: its box stays 10 by 12 where the box of the new text is 20 by 12.
\<close>

theorem box_is_current_without_display_counterexample:
  "show_control ((create_control face_plain)\<lparr>label_text := Some ''a''\<rparr>) None 0 0
     = Some (unattached_label, [], True)
   \<and> set_text_for_control unattached_label (Some ''ab'')
     = Some (Inr (unattached_label\<lparr>label_text := Some ''ab''\<rparr>, []))
   \<and> \<not> is_hidden (unattached_label\<lparr>label_text := Some ''ab''\<rparr>)
   \<and> size_control_box (face (unattached_label\<lparr>label_text := Some ''ab''\<rparr>))
        (label_text (unattached_label\<lparr>label_text := Some ''ab''\<rparr>))
        (label_width (unattached_label\<lparr>label_text := Some ''ab''\<rparr>)) = Some (20, 12)
   \<and> rect_width (area (unattached_label\<lparr>label_text := Some ''ab''\<rparr>)) = 10
   \<and> rect_height (area (unattached_label\<lparr>label_text := Some ''ab''\<rparr>)) = 12"
  by (simp add: show_control_def size_control_def create_control_def unattached_label_def
      box_plain_a box_plain_ab set_text_for_control_def trigger_redraw_def)

subsection \<open>Single precision\<close>

text \<open>
  An integer below \<open>2 ^ 24\<close> in absolute value is a \<^verbatim>\<open>float\<close>: its conversion is
  exact, and so is the conversion of a byte to \<^verbatim>\<open>float\<close> and back.
\<close>

lemma pow2_pos: "0 < pow2 k"
  by (simp add: pow2_def)

lemma pow2_mono: "k \<le> l \<Longrightarrow> pow2 k \<le> pow2 l"
proof -
  assume kl: "k \<le> l"
  consider (a) "0 \<le> k" | (b) "k < 0" "0 \<le> l" | (c) "l < 0" by linarith
  then show ?thesis
  proof cases
    case a
    with kl show ?thesis by (simp add: pow2_def power_increasing)
  next
    case b
    have "1 / 2 ^ nat (- k) \<le> (1 :: real)" by simp
    also have "(1 :: real) \<le> 2 ^ nat l" by simp
    finally show ?thesis using b by (simp add: pow2_def)
  next
    case c
    with kl have "nat (- l) \<le> nat (- k)" by simp
    then have "(2 :: real) ^ nat (- l) \<le> 2 ^ nat (- k)" by (simp add: power_increasing)
    then show ?thesis using c kl by (simp add: pow2_def frac_le)
  qed
qed

lemma pow2_ulp: "e \<le> 23 \<Longrightarrow> pow2 (e - 23) = 1 / 2 ^ nat (23 - e)"
  by (cases "e = 23") (simp_all add: pow2_def)

lemma float_exponent_search_bounds:
  "float_exponent_search n k r = k - int n
   \<or> (k - int n < float_exponent_search n k r \<and> float_exponent_search n k r \<le> k
      \<and> pow2 (float_exponent_search n k r) \<le> \<bar>r\<bar>)"
proof (induction n arbitrary: k)
  case 0
  show ?case by simp
next
  case (Suc n)
  show ?case
  proof (cases "pow2 k \<le> \<bar>r\<bar>")
    case True
    then show ?thesis by simp
  next
    case False
    with Suc [of "k - 1"] show ?thesis by auto
  qed
qed

lemma float_exponent_bounds:
  "- 126 \<le> float_exponent r \<and> float_exponent r \<le> 127
   \<and> (float_exponent r = - 126 \<or> pow2 (float_exponent r) \<le> \<bar>r\<bar>)"
  using float_exponent_search_bounds [of 253 127 r] by (auto simp: float_exponent_def)

lemma round_half_even_of_int: "round_half_even (of_int z) = z"
  by (simp add: round_half_even_def)

lemma float_round_of_int:
  assumes "\<bar>n\<bar> < 2 ^ 24"
  shows "float_round (of_int n) = Float_Value (of_int n)"
proof -
  let ?e = "float_exponent (of_int n)"
  have e23: "?e \<le> 23"
  proof (rule ccontr)
    assume "\<not> ?e \<le> 23"
    then have big: "24 \<le> ?e" by simp
    with float_exponent_bounds [of "of_int n"] have "pow2 ?e \<le> \<bar>of_int n :: real\<bar>" by auto
    moreover from big have "pow2 24 \<le> pow2 ?e" by (rule pow2_mono)
    ultimately have "pow2 24 \<le> \<bar>of_int n :: real\<bar>" by simp
    then have "(2 :: real) ^ 24 \<le> of_int \<bar>n\<bar>" by (simp add: pow2_def)
    then have "(2 :: int) ^ 24 \<le> \<bar>n\<bar>" by simp
    with assms show False by simp
  qed
  let ?m = "nat (23 - ?e)"
  have ulp: "pow2 (?e - 23) = 1 / 2 ^ ?m" using e23 by (rule pow2_ulp)
  have q: "of_int n / pow2 (?e - 23) = (of_int (n * 2 ^ ?m) :: real)"
    by (simp add: ulp)
  have v: "of_int (round_half_even (of_int n / pow2 (?e - 23))) * pow2 (?e - 23) = (of_int n :: real)"
    unfolding q round_half_even_of_int by (simp add: ulp)
  have "\<bar>of_int n :: real\<bar> < 2 ^ 24"
    using assms by (metis of_int_abs of_int_less_numeral_power_cancel_iff)
  also have "(2 :: real) ^ 24 \<le> pow2 128" by (simp add: pow2_def)
  finally have small: "\<not> pow2 128 \<le> \<bar>of_int n :: real\<bar>" by simp
  show ?thesis
    unfolding float_round_def Let_def v using small by simp
qed

lemma int_to_float_uint8: "int_to_float (uint (w :: 8 word)) = Float_Value (of_int (uint w))"
proof -
  have "uint w < 2 ^ 8" using uint_bounded [of w] by simp
  moreover have "0 \<le> uint w" by simp
  ultimately have "\<bar>uint w\<bar> < 2 ^ 24" by simp
  then show ?thesis unfolding int_to_float_def by (rule float_round_of_int)
qed

lemma int_to_float_255: "int_to_float 255 = Float_Value 255"
  using float_round_of_int [of 255] by (simp add: int_to_float_def)

lemma float_round_0: "float_round 0 = Float_Value 0"
  using float_round_of_int [of 0] by simp

lemma float_round_1: "float_round 1 = Float_Value 1"
  using float_round_of_int [of 1] by simp

lemma to_uint8_t_uint: "to_uint8_t (Float_Value (of_int (uint (w :: 8 word)))) = w"
  by (simp only: to_uint8_t_def float_to_int_def c_float.case ceiling_of_int floor_of_int
      if_cancel word_of_int_uint)

lemma to_uint8_t_0: "to_uint8_t (Float_Value 0) = 0"
  by (simp add: to_uint8_t_def float_to_int_def)

lemma to_uint8_t_255: "to_uint8_t (Float_Value 255) = 255"
  by (simp add: to_uint8_t_def float_to_int_def)

text \<open>
  The rounding of \<open>r\<close>, from the exponent of its binade and the significand nearest
  to it.
\<close>

lemma pow2_less: "pow2 k \<le> r \<Longrightarrow> r < pow2 l \<Longrightarrow> k < l"
  using pow2_mono [of l k] by (cases "k < l") simp_all

lemma float_exponent_search_eq:
  assumes "k0 \<le> k" and "k - k0 \<le> int n" and "\<bar>r\<bar> < pow2 (k0 + 1)"
    and "pow2 k0 \<le> \<bar>r\<bar> \<or> k - k0 = int n"
  shows "float_exponent_search n k r = k0"
  using assms
proof (induction n arbitrary: k)
  case 0
  then show ?case by simp
next
  case (Suc n)
  show ?case
  proof (cases "pow2 k \<le> \<bar>r\<bar>")
    case True
    then have "k < k0 + 1"
      using Suc.prems(3) by (rule pow2_less)
    then have "k = k0"
      using Suc.prems(1) by simp
    then show ?thesis
      using True by simp
  next
    case False
    have "k0 \<noteq> k"
      using False Suc.prems(4) by auto
    then have "k0 \<le> k - 1"
      using Suc.prems(1) by simp
    moreover have "k - 1 - k0 \<le> int n"
      using Suc.prems(2) by simp
    moreover have "pow2 k0 \<le> \<bar>r\<bar> \<or> k - 1 - k0 = int n"
      using Suc.prems(4) by auto
    ultimately have "float_exponent_search n (k - 1) r = k0"
      using Suc.prems(3) by (intro Suc.IH) simp_all
    then show ?thesis
      using False by simp
  qed
qed

lemma float_exponent_eq:
  assumes "- 126 \<le> e" and "e \<le> 127" and "\<bar>r\<bar> < pow2 (e + 1)"
    and "e = - 126 \<or> pow2 e \<le> \<bar>r\<bar>"
  shows "float_exponent r = e"
  unfolding float_exponent_def using assms by (intro float_exponent_search_eq) auto

lemma float_round_value:
  assumes "- 126 \<le> e" and "e \<le> 127" and "\<bar>r\<bar> < pow2 (e + 1)"
    and "e = - 126 \<or> pow2 e \<le> \<bar>r\<bar>"
    and "round_half_even (r / pow2 (e - 23)) = m"
    and "v = of_int m * pow2 (e - 23)"
    and "\<bar>v\<bar> < pow2 128"
  shows "float_round r = Float_Value v"
proof -
  have "float_exponent r = e"
    using assms(1-4) by (rule float_exponent_eq)
  then show ?thesis
    using assms(5-7) by (simp add: float_round_def Let_def)
qed

subsection \<open>Blending\<close>

text \<open>The word packed from four bytes, and its alpha byte.\<close>

lemma low24: "(0x00FFFFFF :: 32 word) = mask 24"
  by (simp add: mask_eq_exp_minus_1)

lemma pack_bytes_transparent:
  fixes dest :: "32 word"
  shows "push_bit 24 (ucast (0 :: 8 word)) OR push_bit 16 (ucast (ucast (drop_bit 16 dest) :: 8 word))
         OR push_bit 8 (ucast (ucast (drop_bit 8 dest) :: 8 word)) OR ucast (ucast dest :: 8 word)
         = dest AND 0x00FFFFFF"
  unfolding low24
proof (rule bit_word_eqI, auto simp: bit_simps)
  fix n
  assume b: "bit dest n" and nb: "\<not> bit dest (16 + (n - 16))"
  have "\<not> 16 \<le> n"
  proof
    assume "16 \<le> n"
    then have "16 + (n - 16) = n" by simp
    with b nb show False by simp
  qed
  then show "n - 8 < 8" by simp
qed

lemma pack_bytes_alpha:
  fixes ad rd gd bd :: "8 word"
  shows "(ucast (drop_bit 24 (push_bit 24 (ucast ad) OR push_bit 16 (ucast rd)
            OR push_bit 8 (ucast gd) OR (ucast bd :: 32 word))) :: 8 word) = ad"
  by (rule bit_word_eqI) (auto simp: bit_simps dest: bit_imp_le_length)

lemma alpha_byte_zero_iff:
  fixes dest :: "32 word"
  shows "(dest AND 0x00FFFFFF = dest) = (drop_bit 24 dest = 0)"
  unfolding low24
  by (simp add: take_bit_eq_mask [symmetric] take_bit_eq_self_iff_drop_bit_eq_0)

text \<open>
  With a source alpha of 0 a channel keeps the byte of the destination, and with a
  source alpha of 1 it takes the byte of the label: the products and sums are exact.
\<close>

lemma float_round_uint8:
  "float_round (of_int (uint (w :: 8 word))) = Float_Value (of_int (uint w))"
  using int_to_float_uint8 [of w] by (simp only: int_to_float_def)

lemma blend_channel_transparent:
  fixes d s :: "8 word"
  shows "to_uint8_t (fadd (fmul (Float_Value 1) (int_to_float (uint d)))
                          (fmul (Float_Value 0) (int_to_float (uint s)))) = d"
  by (simp only: int_to_float_uint8 fmul.simps fadd.simps mult_1 mult_zero_left add_0_right
      float_round_uint8 float_round_0 to_uint8_t_uint)

lemma blend_channel_opaque:
  fixes d s :: "8 word"
  shows "to_uint8_t (fadd (fmul (Float_Value 0) (int_to_float (uint d)))
                          (fmul (Float_Value 1) (int_to_float (uint s)))) = s"
  by (simp only: int_to_float_uint8 fmul.simps fadd.simps mult_1 mult_zero_left add_0_left
      float_round_uint8 float_round_0 to_uint8_t_uint)

lemma fsub_1_0: "fsub (Float_Value 1) (Float_Value 0) = Float_Value 1"
  by (simp only: fsub.simps diff_zero float_round_1)

lemma fsub_1_1: "fsub (Float_Value 1) (Float_Value 1) = Float_Value 0"
  by (simp only: fsub.simps diff_self float_round_0)

lemma fmul_0_255: "fmul (Float_Value 0) (int_to_float 255) = Float_Value 0"
  by (simp only: int_to_float_255 fmul.simps mult_zero_left float_round_0)

lemma fmul_1_255: "fmul (Float_Value 1) (int_to_float 255) = Float_Value 255"
  using float_round_of_int [of 255] by (simp add: int_to_float_255)

lemma fdiv_255_255: "fdiv (int_to_float 255) (Float_Value 255) = Float_Value 1"
  by (simp add: int_to_float_255 float_round_1)

lemma draw_bitmap_alpha_opaque:
  "alpha label = Float_Value 1 \<Longrightarrow> draw_bitmap_alpha label 255 = Float_Value 1"
  by (simp add: draw_bitmap_alpha_def fdiv_255_255 float_round_1)

lemma draw_bitmap_alpha_transparent:
  "alpha label = Float_Value 0 \<Longrightarrow> draw_bitmap_alpha label 255 = Float_Value 0"
  by (simp add: draw_bitmap_alpha_def fdiv_255_255 float_round_0)

lemma draw_bitmap_blend_transparent:
  assumes z: "draw_bitmap_alpha label cov = Float_Value 0"
  shows "draw_bitmap_blend label cov dest = dest AND 0x00FFFFFF"
proof -
  have "draw_bitmap_blend label cov dest
        = push_bit 24 (ucast (0 :: 8 word)) OR push_bit 16 (ucast (ucast (drop_bit 16 dest) :: 8 word))
          OR push_bit 8 (ucast (ucast (drop_bit 8 dest) :: 8 word)) OR ucast (ucast dest :: 8 word)"
    unfolding draw_bitmap_blend_def Let_def z fsub_1_0
    by (simp only: blend_channel_transparent fmul_0_255 to_uint8_t_0)
  then show ?thesis
    by (simp only: pack_bytes_transparent)
qed

lemma draw_bitmap_blend_opaque:
  assumes o: "alpha label = Float_Value 1"
  shows "draw_bitmap_blend label 255 dest
          = push_bit 24 255
            OR push_bit 16 (ucast (to_uint8_t (fmul (int_to_float 255) (red label))))
            OR push_bit 8 (ucast (to_uint8_t (fmul (int_to_float 255) (green label))))
            OR ucast (to_uint8_t (fmul (int_to_float 255) (blue label)))"
proof -
  have e: "(ucast (255 :: 8 word) :: 32 word) = 255" by simp
  show ?thesis
    unfolding draw_bitmap_blend_def Let_def draw_bitmap_alpha_opaque [OF o] fsub_1_1
    by (simp only: blend_channel_opaque fmul_1_255 to_uint8_t_255 e)
qed

lemma draw_bitmap_blend_alpha_byte:
  "(ucast (drop_bit 24 (draw_bitmap_blend label cov dest)) :: 8 word)
   = to_uint8_t (fmul (draw_bitmap_alpha label cov) (int_to_float 255))"
  unfolding draw_bitmap_blend_def Let_def by (rule pack_bytes_alpha)

lemma created_colours:
  "red (create_control fc) = Float_Value 0" "green (create_control fc) = Float_Value 0"
  "blue (create_control fc) = Float_Value 0" "alpha (create_control fc) = Float_Value 0"
  by (simp_all add: create_control_def)

lemma to_uint8_t_255_times_0: "to_uint8_t (fmul (int_to_float 255) (Float_Value 0)) = 0"
  by (simp add: int_to_float_255 float_round_0 to_uint8_t_0)

lemma to_uint8_t_255_times_1: "to_uint8_t (fmul (int_to_float 255) (Float_Value 1)) = 255"
  using float_round_of_int [of 255] by (simp add: int_to_float_255 to_uint8_t_255)

lemma glyph_1x1_bitmap:
  "bitmap_width (bitmap (glyph_1x1 adv lb)) = 1" "bitmap_rows (bitmap (glyph_1x1 adv lb)) = 1"
  "bitmap_pitch (bitmap (glyph_1x1 adv lb)) = 1" "bitmap_buffer (bitmap (glyph_1x1 adv lb)) i = 255"
  by (simp_all add: glyph_1x1_def)

lemma float_round_alpha_1: "float_round (2 / 51) = Float_Value (10526881 / 268435456)"
  by (rule float_round_value [where e = "- 5" and m = 10526881])
     (simp_all add: pow2_def round_half_even_def Let_def)

lemma float_round_alpha_2:
  "float_round (79475288249107 / 2251799813685248) = Float_Value (9474193 / 268435456)"
  by (rule float_round_value [where e = "- 5" and m = 9474193])
     (simp_all add: pow2_def round_half_even_def Let_def)

lemma float_round_alpha_3: "float_round (2415919215 / 268435456) = Float_Value 9"
  by (rule float_round_value [where e = 3 and m = 9437184])
     (simp_all add: pow2_def round_half_even_def Let_def)

lemma float_round_colour_1: "float_round (13 / 51) = Float_Value (8553091 / 33554432)"
  by (rule float_round_value [where e = "- 2" and m = 8553091])
     (simp_all add: pow2_def round_half_even_def Let_def)

lemma float_round_colour_2: "float_round (8553091 / 33554432) = Float_Value (8553091 / 33554432)"
  by (rule float_round_value [where e = "- 2" and m = 8553091])
     (simp_all add: pow2_def round_half_even_def Let_def)

lemma float_round_colour_3: "float_round (25001341 / 33554432) = Float_Value (6250335 / 8388608)"
  by (rule float_round_value [where e = "- 1" and m = 12500670])
     (simp_all add: pow2_def round_half_even_def Let_def)

lemma float_round_colour_4: "float_round (1593835425 / 8388608) = Float_Value (12451839 / 65536)"
  by (rule float_round_value [where e = 7 and m = 12451839])
     (simp_all add: pow2_def round_half_even_def Let_def)

lemma float_round_colour_5: "float_round (12451839 / 65536) = Float_Value (12451839 / 65536)"
  by (rule float_round_value [where e = 7 and m = 12451839])
     (simp_all add: pow2_def round_half_even_def Let_def)

lemma float_round_colour_6: "float_round (2181038205 / 33554432) = Float_Value 65"
  by (rule float_round_value [where e = 6 and m = 8519680])
     (simp_all add: pow2_def round_half_even_def Let_def)

lemma int_to_float_small:
  "int_to_float 0 = Float_Value 0" "int_to_float 10 = Float_Value 10"
  "int_to_float 65 = Float_Value 65"
  using float_round_of_int [of 0] float_round_of_int [of 10] float_round_of_int [of 65]
  by (simp_all add: int_to_float_def)

lemma to_uint8_t_examples:
  "to_uint8_t (Float_Value 9) = 9" "to_uint8_t (Float_Value 65) = 65"
  "to_uint8_t (Float_Value (12451839 / 65536)) = 189"
  by (simp_all add: to_uint8_t_def float_to_int_def)

text \<open>
  Two blends in which the rounding to single precision shows. With the label alpha
  \<^verbatim>\<open>0.9f\<close>, which is 7549747 / 8388608, and the coverage 10 the alpha byte stored is 9
  (in exact arithmetic 0.9 * 10 / 255 * 255 would fall below 9). With the label alpha 1,
  the colour black and the coverage 65 over a white pixel, the three colour bytes are
  189, not the 190 of exact arithmetic.
\<close>

lemma draw_bitmap_blend_single_precision_alpha:
  assumes "alpha label = Float_Value (7549747 / 8388608)"
  shows "(ucast (drop_bit 24 (draw_bitmap_blend label 10 dest)) :: 8 word) = 9"
  unfolding draw_bitmap_blend_alpha_byte draw_bitmap_alpha_def assms
  by (simp add: int_to_float_small int_to_float_255 float_round_alpha_1 float_round_alpha_2 float_round_alpha_3 to_uint8_t_examples)

lemma draw_bitmap_blend_single_precision_colour:
  assumes "alpha label = Float_Value 1" and "red label = Float_Value 0"
    and "green label = Float_Value 0" and "blue label = Float_Value 0"
  shows "draw_bitmap_blend label 65 0xFFFFFFFF = 0x41BDBDBD"
proof -
  have a: "draw_bitmap_alpha label 65 = Float_Value (8553091 / 33554432)"
    unfolding draw_bitmap_alpha_def assms
    by (simp add: int_to_float_small float_round_colour_1 float_round_colour_2)
  have i: "fsub (Float_Value 1) (Float_Value (8553091 / 33554432)) = Float_Value (6250335 / 8388608)"
    by (simp add: float_round_colour_3)
  have d: "(ucast (drop_bit 16 (0xFFFFFFFF :: 32 word)) :: 8 word) = 255"
    "(ucast (drop_bit 8 (0xFFFFFFFF :: 32 word)) :: 8 word) = 255"
    "(ucast (0xFFFFFFFF :: 32 word) :: 8 word) = 255"
    by simp_all
  have c: "to_uint8_t (fadd (fmul (Float_Value (6250335 / 8388608)) (int_to_float (uint (255 :: 8 word))))
                            (fmul (Float_Value (8553091 / 33554432)) (int_to_float (uint (0 :: 8 word)))))
           = 189"
    by (simp add: int_to_float_small int_to_float_255 float_round_colour_4 float_round_colour_5 float_round_0 to_uint8_t_examples)
  have b: "to_uint8_t (fmul (Float_Value (8553091 / 33554432)) (int_to_float 255)) = 65"
    by (simp add: int_to_float_255 float_round_colour_6 to_uint8_t_examples)
  have p: "push_bit 24 (ucast (65 :: 8 word)) OR push_bit 16 (ucast (189 :: 8 word))
           OR push_bit 8 (ucast (189 :: 8 word)) OR ucast (189 :: 8 word) = (0x41BDBDBD :: 32 word)"
    by simp
  show ?thesis
    unfolding draw_bitmap_blend_def Let_def a i d assms(2-4) to_uint8_t_255_times_0 c b p ..
qed

subsection \<open>The pixels that \<open>draw_bitmap\<close> writes\<close>

text \<open>
  The two loops of \<^verbatim>\<open>draw_bitmap\<close> visit each pair of a row and a column once, and
  in a target less than \<open>2 ^ 31\<close> pixels wide and high two pairs never share an index of
  \<^verbatim>\<open>target\<close>: a covered pixel is written once, with the blend over the word it held
  before the call, and no other word changes.
\<close>

lemma foldl_rows_product:
  "foldl (\<lambda>a y. foldl (\<lambda>b x. f y x b) a xs) a0 ys
   = foldl (\<lambda>a p. f (fst p) (snd p) a) a0 (List.product ys xs)"
proof (induction ys arbitrary: a0)
  case Nil
  show ?case by simp
next
  case (Cons y ys)
  have "foldl (\<lambda>a p. f (fst p) (snd p) a) a0 (map (Pair y) xs) = foldl (\<lambda>b x. f y x b) a0 xs"
    by (induction xs arbitrary: a0) simp_all
  then show ?case
    using Cons.IH by simp
qed

lemma foldl_writes_elsewhere:
  fixes k :: "'p \<Rightarrow> nat" and g :: "'p \<Rightarrow> 32 word \<Rightarrow> 32 word"
  assumes "i \<notin> k ` set ps"
  shows "fst (foldl (\<lambda>tg p. ((fst tg)(k p := g p (fst tg (k p))), (k p, g p (fst tg (k p))) # snd tg))
                tg ps) i = fst (tg :: target) i"
  using assms by (induction ps arbitrary: tg) simp_all

lemma foldl_writes_at:
  fixes k :: "'p \<Rightarrow> nat" and g :: "'p \<Rightarrow> 32 word \<Rightarrow> 32 word"
  assumes "distinct (map k ps)" and "p \<in> set ps"
  shows "fst (foldl (\<lambda>tg p. ((fst tg)(k p := g p (fst tg (k p))), (k p, g p (fst tg (k p))) # snd tg))
                tg ps) (k p) = g p (fst (tg :: target) (k p))"
proof -
  define step :: "target \<Rightarrow> 'p \<Rightarrow> target"
    where "step = (\<lambda>tg p. ((fst tg)(k p := g p (fst tg (k p))), (k p, g p (fst tg (k p))) # snd tg))"
  have at: "fst (step tg q) (k q) = g q (fst tg (k q))" for tg q
    by (simp add: step_def)
  have other: "j \<noteq> k q \<Longrightarrow> fst (step tg q) j = fst tg j" for tg q j
    by (simp add: step_def)
  have elsewhere: "i \<notin> k ` set qs \<Longrightarrow> fst (foldl step tg qs) i = fst tg i" for i qs tg
    unfolding step_def by (rule foldl_writes_elsewhere)
  have "fst (foldl step tg ps) (k p) = g p (fst tg (k p))"
    using assms
  proof (induction ps arbitrary: tg)
    case Nil
    then show ?case by simp
  next
    case (Cons q qs)
    show ?case
    proof (cases "p = q")
      case True
      have "k q \<notin> k ` set qs"
        using Cons.prems(1) by simp
      then have "fst (foldl step (step tg q) qs) (k q) = fst (step tg q) (k q)"
        by (rule elsewhere)
      then show ?thesis
        using True by (simp only: foldl_Cons at)
    next
      case False
      then have m: "p \<in> set qs"
        using Cons.prems(2) by simp
      then have ne: "k p \<noteq> k q"
        using Cons.prems(1) by (auto simp: image_iff)
      have "fst (foldl step (step tg q) qs) (k p) = g p (fst (step tg q) (k p))"
        using Cons.prems(1) m by (intro Cons.IH) simp_all
      then show ?thesis
        by (simp only: foldl_Cons other [OF ne])
    qed
  qed
  then show ?thesis
    by (simp only: step_def)
qed

lemma pixel_index_inj:
  fixes w :: int
  assumes "0 \<le> px" "px < w" "0 \<le> qx" "qx < w" "px + w * py = qx + w * qy"
  shows "px = qx \<and> py = qy"
proof -
  have "(px + w * py) mod w = px" "(qx + w * qy) mod w = qx"
    using assms(1-4) by simp_all
  moreover have "(px + w * py) mod w = (qx + w * qy) mod w"
    by (simp only: assms(5))
  ultimately have x: "px = qx"
    by (simp only:)
  then have "w * py = w * qy"
    using assms(5) by simp
  then have "py = qy"
    using assms(1,2) by simp
  then show ?thesis
    using x by simp
qed

lemma pixel_index_bounds:
  fixes w :: int
  assumes "0 \<le> px" "px < w" "0 \<le> py" "py < h" "w < 2 ^ 31" "h < 2 ^ 31"
  shows "0 \<le> px + w * py" "px + w * py < 2 ^ 64"
proof -
  show "0 \<le> px + w * py"
    using assms by simp
  have "w * py \<le> w * (h - 1)"
    using assms by (intro mult_left_mono) simp_all
  also have "\<dots> \<le> 2 ^ 31 * (h - 1)"
    using assms by (intro mult_right_mono) simp_all
  also have "\<dots> \<le> 2 ^ 31 * (2 ^ 31 :: int)"
    using assms by (intro mult_left_mono) simp_all
  finally have "w * py \<le> 2 ^ 62"
    by simp
  then show "px + w * py < 2 ^ 64"
    using assms by simp
qed

lemma to_unsigned_long_pixel_index:
  assumes "0 \<le> px" "px < w" "0 \<le> py" "py < h" "w < 2 ^ 31" "h < 2 ^ 31"
  shows "to_unsigned_long (px + w * py) = px + w * py"
  using pixel_index_bounds [OF assms] by (simp add: to_unsigned_long_def)

lemma draw_bitmap_ends:
  assumes "0 \<le> s" "0 \<le> n" "s + n < 2 ^ 32" "0 \<le> m" "m < 2 ^ 31"
  shows "to_FT_Int (min (to_uint32_t (s + n)) m) = min (s + n) m"
proof -
  have "to_uint32_t (s + n) = s + n"
    using assms by (simp add: to_uint32_t_def)
  moreover have "0 \<le> min (s + n) m" "min (s + n) m < 2 ^ 31"
    using assms by simp_all
  ultimately show ?thesis
    by (simp add: to_FT_Int_def)
qed

lemma draw_bitmap_as_product:
  "draw_bitmap label tg tgt_size source x_start y_start =
     (if to_uint32_t x_start \<ge> rect_width tgt_size \<or> to_uint32_t y_start \<ge> rect_height tgt_size
      then tg
      else foldl (\<lambda>tg p. draw_bitmap_pixel label tgt_size source x_start y_start (fst p) (snd p) tg)
             tg (List.product
                   [y_start .. to_FT_Int (min (to_uint32_t (y_start + bitmap_rows source))
                                              (rect_height tgt_size)) - 1]
                   [x_start .. to_FT_Int (min (to_uint32_t (x_start + bitmap_width source))
                                              (rect_width tgt_size)) - 1]))"
  unfolding draw_bitmap_def Let_def foldl_rows_product ..

lemma draw_bitmap_pixel_writes:
  "(\<lambda>tg p. draw_bitmap_pixel label tgt_size source x_start y_start (fst p) (snd p) tg)
   = (\<lambda>tg p.
        ((fst tg)(nat (to_unsigned_long (snd p + rect_width tgt_size * fst p))
           := draw_bitmap_blend label
                (bitmap_buffer source
                   (to_FT_Int (snd p - x_start + bitmap_pitch source * (fst p - y_start))))
                (fst tg (nat (to_unsigned_long (snd p + rect_width tgt_size * fst p))))),
         (nat (to_unsigned_long (snd p + rect_width tgt_size * fst p)),
          draw_bitmap_blend label
                (bitmap_buffer source
                   (to_FT_Int (snd p - x_start + bitmap_pitch source * (fst p - y_start))))
                (fst tg (nat (to_unsigned_long (snd p + rect_width tgt_size * fst p)))))
         # snd tg))"
  by (simp only: draw_bitmap_pixel_def Let_def)

lemma pixel_indices_distinct:
  assumes w: "w < 2 ^ 31" and h: "h < 2 ^ 31" and x: "0 \<le> x0" "x1 \<le> w" and y: "0 \<le> y0" "y1 \<le> h"
  shows "distinct (map (\<lambda>p. nat (to_unsigned_long (snd p + w * fst p)))
                       (List.product [y0 .. y1 - 1] [x0 .. x1 - 1]))"
proof -
  have "inj_on (\<lambda>p. nat (to_unsigned_long (snd p + w * fst p)))
               (set (List.product [y0 .. y1 - 1] [x0 .. x1 - 1]))"
  proof (rule inj_onI)
    fix p q :: "int \<times> int"
    assume p: "p \<in> set (List.product [y0 .. y1 - 1] [x0 .. x1 - 1])"
      and q: "q \<in> set (List.product [y0 .. y1 - 1] [x0 .. x1 - 1])"
      and e: "nat (to_unsigned_long (snd p + w * fst p)) = nat (to_unsigned_long (snd q + w * fst q))"
    have pb: "0 \<le> snd p" "snd p < w" "0 \<le> fst p" "fst p < h"
      using p x y by auto
    have qb: "0 \<le> snd q" "snd q < w" "0 \<le> fst q" "fst q < h"
      using q x y by auto
    have "nat (snd p + w * fst p) = nat (snd q + w * fst q)"
      using e to_unsigned_long_pixel_index [OF pb w h] to_unsigned_long_pixel_index [OF qb w h]
      by (simp only:)
    then have "snd p + w * fst p = snd q + w * fst q"
      using pixel_index_bounds(1) [OF pb w h] pixel_index_bounds(1) [OF qb w h] by simp
    then have "snd p = snd q \<and> fst p = fst q"
      using pb(1,2) qb(1,2) by (rule pixel_index_inj [rotated 4])
    then show "p = q"
      by (simp add: prod_eq_iff)
  qed
  then show ?thesis
    by (simp add: distinct_map distinct_product)
qed

lemma draw_bitmap_covered:
  assumes w: "rect_width tgt_size < 2 ^ 31" and h: "rect_height tgt_size < 2 ^ 31"
    and sw: "x_start + bitmap_width source < 2 ^ 32"
    and sh: "y_start + bitmap_rows source < 2 ^ 32"
    and x: "0 \<le> x_start" "x_start \<le> px" "px < x_start + bitmap_width source"
           "px < rect_width tgt_size"
    and y: "0 \<le> y_start" "y_start \<le> py" "py < y_start + bitmap_rows source"
           "py < rect_height tgt_size"
  shows "fst (draw_bitmap label tg tgt_size source x_start y_start)
             (nat (px + rect_width tgt_size * py))
         = draw_bitmap_blend label
             (bitmap_buffer source
                (to_FT_Int (px - x_start + bitmap_pitch source * (py - y_start))))
             (fst tg (nat (px + rect_width tgt_size * py)))"
proof -
  let ?w = "rect_width tgt_size" and ?h = "rect_height tgt_size"
  let ?xe = "min (x_start + bitmap_width source) ?w"
  let ?ye = "min (y_start + bitmap_rows source) ?h"
  let ?k = "\<lambda>p. nat (to_unsigned_long (snd p + ?w * fst p))"
  let ?g = "\<lambda>p. draw_bitmap_blend label
                (bitmap_buffer source
                   (to_FT_Int (snd p - x_start + bitmap_pitch source * (fst p - y_start))))"
  let ?ps = "List.product [y_start .. ?ye - 1] [x_start .. ?xe - 1]"
  have xe: "to_FT_Int (min (to_uint32_t (x_start + bitmap_width source)) ?w) = ?xe"
    using x w sw by (intro draw_bitmap_ends) simp_all
  have ye: "to_FT_Int (min (to_uint32_t (y_start + bitmap_rows source)) ?h) = ?ye"
    using y h sh by (intro draw_bitmap_ends) simp_all
  have gx: "\<not> to_uint32_t x_start \<ge> ?w"
    using x w by (simp add: to_uint32_t_def)
  have gy: "\<not> to_uint32_t y_start \<ge> ?h"
    using y h by (simp add: to_uint32_t_def)
  have d: "draw_bitmap label tg tgt_size source x_start y_start
           = foldl (\<lambda>tg p. ((fst tg)(?k p := ?g p (fst tg (?k p))),
                              (?k p, ?g p (fst tg (?k p))) # snd tg)) tg ?ps"
    unfolding draw_bitmap_as_product xe ye draw_bitmap_pixel_writes using gx gy by simp
  have dist: "distinct (map ?k ?ps)"
    using w h x(1) y(1) pixel_indices_distinct [of ?w ?h x_start ?xe y_start ?ye] by simp
  have mem: "(py, px) \<in> set ?ps"
    using x y by simp
  have "fst (foldl (\<lambda>tg p. ((fst tg)(?k p := ?g p (fst tg (?k p))),
                              (?k p, ?g p (fst tg (?k p))) # snd tg)) tg ?ps) (?k (py, px))
        = ?g (py, px) (fst tg (?k (py, px)))"
    using dist mem by (rule foldl_writes_at)
  moreover have "?k (py, px) = nat (px + ?w * py)"
    using to_unsigned_long_pixel_index [of px ?w py ?h] x y w h by simp
  ultimately show ?thesis
    unfolding d by simp
qed

lemma draw_bitmap_elsewhere:
  assumes w: "rect_width tgt_size < 2 ^ 31" and h: "rect_height tgt_size < 2 ^ 31"
    and sw: "0 \<le> bitmap_width source" "x_start + bitmap_width source < 2 ^ 32"
    and sh: "0 \<le> bitmap_rows source" "y_start + bitmap_rows source < 2 ^ 32"
    and s: "0 \<le> x_start" "0 \<le> y_start"
    and i: "\<And>px py. x_start \<le> px \<Longrightarrow> px < x_start + bitmap_width source
              \<Longrightarrow> px < rect_width tgt_size
              \<Longrightarrow> y_start \<le> py \<Longrightarrow> py < y_start + bitmap_rows source
              \<Longrightarrow> py < rect_height tgt_size
              \<Longrightarrow> i \<noteq> nat (px + rect_width tgt_size * py)"
  shows "fst (draw_bitmap label tg tgt_size source x_start y_start) i = fst tg i"
proof (cases "to_uint32_t x_start \<ge> rect_width tgt_size
              \<or> to_uint32_t y_start \<ge> rect_height tgt_size")
  case True
  then show ?thesis
    by (simp add: draw_bitmap_as_product)
next
  case False
  let ?w = "rect_width tgt_size" and ?h = "rect_height tgt_size"
  let ?xe = "min (x_start + bitmap_width source) ?w"
  let ?ye = "min (y_start + bitmap_rows source) ?h"
  let ?k = "\<lambda>p. nat (to_unsigned_long (snd p + ?w * fst p))"
  let ?g = "\<lambda>p. draw_bitmap_blend label
                (bitmap_buffer source
                   (to_FT_Int (snd p - x_start + bitmap_pitch source * (fst p - y_start))))"
  let ?ps = "List.product [y_start .. ?ye - 1] [x_start .. ?xe - 1]"
  have pos: "0 \<le> ?w" "0 \<le> ?h"
    using False by (simp_all add: to_uint32_t_def not_le) (smt (verit) pos_mod_sign)+
  have xe: "to_FT_Int (min (to_uint32_t (x_start + bitmap_width source)) ?w) = ?xe"
    using s w sw pos by (intro draw_bitmap_ends) simp_all
  have ye: "to_FT_Int (min (to_uint32_t (y_start + bitmap_rows source)) ?h) = ?ye"
    using s h sh pos by (intro draw_bitmap_ends) simp_all
  have d: "draw_bitmap label tg tgt_size source x_start y_start
           = foldl (\<lambda>tg p. ((fst tg)(?k p := ?g p (fst tg (?k p))),
                              (?k p, ?g p (fst tg (?k p))) # snd tg)) tg ?ps"
    unfolding draw_bitmap_as_product xe ye draw_bitmap_pixel_writes using False by simp
  have "i \<notin> ?k ` set ?ps"
  proof
    assume "i \<in> ?k ` set ?ps"
    then obtain py px where p: "(py, px) \<in> set ?ps" and e: "i = ?k (py, px)"
      by auto
    have b: "x_start \<le> px" "px < x_start + bitmap_width source" "px < ?w"
            "y_start \<le> py" "py < y_start + bitmap_rows source" "py < ?h"
      using p by auto
    have "?k (py, px) = nat (px + ?w * py)"
      using to_unsigned_long_pixel_index [of px ?w py ?h] b s w h by simp
    then show False
      using i [OF b] e by simp
  qed
  then show ?thesis
    unfolding d by (rule foldl_writes_elsewhere)
qed

text \<open>
  C6 (\<open>draw_bitmap\<close>): in a target less than \<open>2 ^ 31\<close> pixels wide and high, for a
  glyph placed at a column and a row that are not negative, every pixel that the glyph
  covers inside the target holds, after the call, the blend of the glyph's coverage byte
  over the word it held before. With a source alpha of 0 that word keeps its red, green
  and blue bytes and loses its alpha byte, so the pixel is unchanged exactly when its
  alpha byte was 0 already; with a label alpha of 1 over the coverage 255 the pixel
  becomes the alpha byte 255 over the three colour bytes of the label, each the
  \<^verbatim>\<open>uint8_t\<close> of 255 times the colour; and in every case the alpha byte stored is the
  \<^verbatim>\<open>uint8_t\<close> of the source alpha times 255 in single precision, whatever the
  destination held.
\<close>

theorem draw_bitmap_covered_pixel:
  assumes "rect_width tgt_size < 2 ^ 31" and "rect_height tgt_size < 2 ^ 31"
    and "x_start + bitmap_width source < 2 ^ 32"
    and "y_start + bitmap_rows source < 2 ^ 32"
    and "0 \<le> x_start" and "x_start \<le> px" and "px < x_start + bitmap_width source"
    and "px < rect_width tgt_size"
    and "0 \<le> y_start" and "y_start \<le> py" and "py < y_start + bitmap_rows source"
    and "py < rect_height tgt_size"
  shows
    "let i = nat (px + rect_width tgt_size * py);
         cov = bitmap_buffer source
                 (to_FT_Int (px - x_start + bitmap_pitch source * (py - y_start)));
         old = fst tg i;
         new = fst (draw_bitmap label tg tgt_size source x_start y_start) i
     in new = draw_bitmap_blend label cov old
        \<and> (draw_bitmap_alpha label cov = Float_Value 0
             \<longrightarrow> new = old AND 0x00FFFFFF \<and> (new = old) = (drop_bit 24 old = 0))
        \<and> (alpha label = Float_Value 1 \<and> cov = 255
             \<longrightarrow> new = push_bit 24 255
                        OR push_bit 16 (ucast (to_uint8_t (fmul (int_to_float 255) (red label))))
                        OR push_bit 8 (ucast (to_uint8_t (fmul (int_to_float 255) (green label))))
                        OR ucast (to_uint8_t (fmul (int_to_float 255) (blue label))))
        \<and> (ucast (drop_bit 24 new) :: 8 word)
            = to_uint8_t (fmul (draw_bitmap_alpha label cov) (int_to_float 255))"
proof -
  let ?i = "nat (px + rect_width tgt_size * py)"
  let ?cov = "bitmap_buffer source
                 (to_FT_Int (px - x_start + bitmap_pitch source * (py - y_start)))"
  let ?old = "fst tg ?i"
  let ?new = "fst (draw_bitmap label tg tgt_size source x_start y_start) ?i"
  have n: "?new = draw_bitmap_blend label ?cov ?old"
    using assms by (rule draw_bitmap_covered)
  have t: "?new = ?old AND 0x00FFFFFF \<and> (?new = ?old) = (drop_bit 24 ?old = 0)"
    if z: "draw_bitmap_alpha label ?cov = Float_Value 0"
  proof -
    have e: "?new = ?old AND 0x00FFFFFF"
      unfolding n using z by (rule draw_bitmap_blend_transparent)
    have "(?old AND 0x00FFFFFF = ?old) = (drop_bit 24 ?old = 0)"
      by (rule alpha_byte_zero_iff)
    then show ?thesis
      using e by (simp only: simp_thms)
  qed
  have o: "?new = push_bit 24 255
                OR push_bit 16 (ucast (to_uint8_t (fmul (int_to_float 255) (red label))))
                OR push_bit 8 (ucast (to_uint8_t (fmul (int_to_float 255) (green label))))
                OR ucast (to_uint8_t (fmul (int_to_float 255) (blue label)))"
    if "alpha label = Float_Value 1 \<and> ?cov = 255"
  proof -
    from that have a: "alpha label = Float_Value 1" and c: "?cov = 255"
      by blast+
    show ?thesis
      unfolding n c using a by (rule draw_bitmap_blend_opaque)
  qed
  have b: "(ucast (drop_bit 24 ?new) :: 8 word)
            = to_uint8_t (fmul (draw_bitmap_alpha label ?cov) (int_to_float 255))"
    unfolding n by (rule draw_bitmap_blend_alpha_byte)
  show ?thesis
    unfolding Let_def using n t o b by blast
qed

theorem draw_bitmap_covered_pixel_witness:
  "fst (draw_bitmap ((create_control face_plain)\<lparr>red := Float_Value 1, alpha := Float_Value 1\<rparr>)
          (\<lambda>i. 0x00112233, [])
          \<lparr>rect_x = 0, rect_y = 0, rect_width = 4, rect_height = 4\<rparr>
          (bitmap (glyph_1x1 640 0)) 1 2) 9 = 0xFFFF0000
   \<and> fst (draw_bitmap (create_control face_plain) (\<lambda>i. 0x00112233, [])
          \<lparr>rect_x = 0, rect_y = 0, rect_width = 4, rect_height = 4\<rparr>
          (bitmap (glyph_1x1 640 0)) 1 2) 9 = 0x00112233"
proof -
  let ?w = "(create_control face_plain)\<lparr>red := Float_Value 1, alpha := Float_Value 1\<rparr>"
  let ?c = "create_control face_plain"
  let ?tg = "(\<lambda>i. 0x00112233, []) :: target"
  let ?r = "\<lparr>rect_x = 0, rect_y = 0, rect_width = 4, rect_height = 4\<rparr>"
  let ?b = "bitmap (glyph_1x1 640 0)"
  have g: "rect_width ?r < 2 ^ 31" "rect_height ?r < 2 ^ 31"
    "1 + bitmap_width ?b < 2 ^ 32" "2 + bitmap_rows ?b < 2 ^ 32"
    "(0 :: int) \<le> 1" "(1 :: int) \<le> 1" "1 < 1 + bitmap_width ?b" "1 < rect_width ?r"
    "(0 :: int) \<le> 2" "(2 :: int) \<le> 2" "2 < 2 + bitmap_rows ?b" "2 < rect_height ?r"
    by (simp_all add: glyph_1x1_bitmap)
  have i: "nat (1 + rect_width ?r * 2) = 9"
    by simp
  have v: "bitmap_buffer ?b (to_FT_Int (1 - 1 + bitmap_pitch ?b * (2 - 2))) = 255"
    by (rule glyph_1x1_bitmap)
  have c: "red ?w = Float_Value 1" "green ?w = Float_Value 0" "blue ?w = Float_Value 0"
          "alpha ?w = Float_Value 1"
    by (simp_all add: created_colours)
  have z: "draw_bitmap_alpha ?c 255 = Float_Value 0"
    by (rule draw_bitmap_alpha_transparent) (rule created_colours)
  have p: "push_bit 24 255 OR push_bit 16 (ucast (255 :: 8 word))
             OR push_bit 8 (ucast (0 :: 8 word)) OR ucast (0 :: 8 word) = (0xFFFF0000 :: 32 word)"
    by simp
  have q: "(0x00112233 AND 0x00FFFFFF :: 32 word) = 0x00112233"
    by simp
  note opaque = draw_bitmap_covered_pixel [OF g, where tg = ?tg and label = ?w,
      unfolded Let_def i v c to_uint8_t_255_times_0 to_uint8_t_255_times_1 p]
  note transparent = draw_bitmap_covered_pixel [OF g, where tg = ?tg and label = ?c,
      unfolded Let_def i v]
  have 1: "fst (draw_bitmap ?w ?tg ?r ?b 1 2) 9 = 0xFFFF0000"
    using opaque by blast
  have "fst (draw_bitmap ?c ?tg ?r ?b 1 2) 9 = fst ?tg 9 AND 0x00FFFFFF"
    using transparent z by blast
  then have 2: "fst (draw_bitmap ?c ?tg ?r ?b 1 2) 9 = 0x00112233"
    by (simp only: fst_conv q)
  show ?thesis
    using 1 2 by (rule conjI)
qed

text \<open>
  A glyph drawn with a source alpha of 0 over a pixel whose alpha byte is 255 clears
  that byte.
\<close>

theorem draw_bitmap_transparent_counterexample:
  "draw_bitmap_alpha (create_control face_plain) (bitmap_buffer (bitmap (glyph_1x1 640 0)) 0)
     = Float_Value 0
   \<and> fst (draw_bitmap (create_control face_plain) (\<lambda>i. 0xFF112233, [])
          \<lparr>rect_x = 0, rect_y = 0, rect_width = 4, rect_height = 4\<rparr>
          (bitmap (glyph_1x1 640 0)) 1 2) 9 = 0x00112233"
proof -
  let ?c = "create_control face_plain"
  let ?tg = "(\<lambda>i. 0xFF112233, []) :: target"
  let ?r = "\<lparr>rect_x = 0, rect_y = 0, rect_width = 4, rect_height = 4\<rparr>"
  let ?b = "bitmap (glyph_1x1 640 0)"
  have z: "draw_bitmap_alpha ?c 255 = Float_Value 0"
    by (rule draw_bitmap_alpha_transparent) (rule created_colours)
  have "fst (draw_bitmap ?c ?tg ?r ?b 1 2) (nat (1 + rect_width ?r * 2))
        = draw_bitmap_blend ?c (bitmap_buffer ?b (to_FT_Int (1 - 1 + bitmap_pitch ?b * (2 - 2))))
            (fst ?tg (nat (1 + rect_width ?r * 2)))"
    by (rule draw_bitmap_covered) (simp_all add: glyph_1x1_bitmap)
  then have "fst (draw_bitmap ?c ?tg ?r ?b 1 2) 9 = draw_bitmap_blend ?c 255 0xFF112233"
    by (simp add: glyph_1x1_bitmap)
  also have "\<dots> = 0xFF112233 AND 0x00FFFFFF"
    using z by (rule draw_bitmap_blend_transparent)
  finally show ?thesis
    using z by (simp add: glyph_1x1_bitmap)
qed

subsection \<open>Drawing\<close>

lemma to_long_add_to_long: "to_long (a + to_long b) = to_long (a + b)"
  by (simp add: to_long_def mod_simps algebra_simps)

lemma draw_control_line_Nil:
  "draw_control_line label tgt_size pen_x pen_y [] tg = Some (pen_x, pen_y, [], tg)"
  by (subst draw_control_line.simps) simp

lemma draw_control_lines_Nil: "draw_control_lines label tgt_size pen_y [] tg = Some tg"
  by (subst draw_control_lines.simps) simp

lemma glyph_plain: "FT_Load_Char face_plain c = Some (glyph_1x1 640 0)"
  by (simp add: face_plain_def)

lemma drawn_label_fields:
  "alpha drawn_label = Float_Value 1" "red drawn_label = Float_Value 1"
  "green drawn_label = Float_Value 1" "blue drawn_label = Float_Value 1"
  "face drawn_label = face_plain" "alignment drawn_label = PLY_LABEL_ALIGN_LEFT"
  "area drawn_label = \<lparr>rect_x = 0, rect_y = 0, rect_width = 10, rect_height = 12\<rparr>"
  "label_text drawn_label = Some ''a''" "is_hidden drawn_label = False"
  by (simp_all add: drawn_label_def create_control_def)

lemma white: "draw_bitmap_blend drawn_label 255 0 = 0xFFFFFFFF"
proof -
  have "push_bit 24 255 OR push_bit 16 (ucast (255 :: 8 word)) OR push_bit 8 (ucast (255 :: 8 word))
           OR ucast (255 :: 8 word) = (0xFFFFFFFF :: 32 word)"
    by simp
  then show ?thesis
    unfolding draw_bitmap_blend_opaque [OF drawn_label_fields(1)] drawn_label_fields
    by (simp only: to_uint8_t_255_times_1)
qed

lemma draw_bitmap_example:
  "draw_bitmap drawn_label (\<lambda>i. 0, []) (buffer_size example_buffer) (bitmap (glyph_1x1 640 0)) 0 10
   = ((\<lambda>i. 0)(1000 := 0xFFFFFFFF), [(1000, 0xFFFFFFFF)])"
  by (simp add: draw_bitmap_def draw_bitmap_pixel_def example_buffer_def glyph_1x1_def
      to_FT_Int_def to_uint32_t_def to_unsigned_long_def white)

lemma draw_control_line_example:
  "draw_control_line drawn_label (buffer_size example_buffer) 0 640 ''a'' (\<lambda>i. 0, [])
   = Some (640, 640, [], ((\<lambda>i. 0)(1000 := 0xFFFFFFFF), [(1000, 0xFFFFFFFF)]))"
proof -
  have g: "bitmap_left (glyph_1x1 640 0) = 0" "bitmap_top (glyph_1x1 640 0) = 0"
    "advance_x (glyph_1x1 640 0) = 640" "advance_y (glyph_1x1 640 0) = 0"
    by (simp_all add: glyph_1x1_def)
  show ?thesis
    by (subst draw_control_line.simps)
       (simp add: drawn_label_fields glyph_plain g to_long_def to_FT_Int_def draw_bitmap_example
          draw_control_line_Nil)
qed

text \<open>
  C5 (\<open>draw_control\<close>, the calls that draw nothing): \<open>draw_control\<close> returns
  without a write to the target when the label is hidden, or the target has the height
  0, or the box of the label and the rectangle to draw are apart even as closed
  rectangles: one ends before the other begins, by at least one pixel (the sums being
  in the range of \<^verbatim>\<open>long\<close>).
\<close>

theorem draw_control_no_writes:
  assumes "is_hidden label \<or> rect_height (buffer_size pixel_buffer) = 0
     \<or> (- (2 ^ 63) \<le> x + width \<and> x + width < 2 ^ 63
        \<and> - (2 ^ 63) \<le> y + height \<and> y + height < 2 ^ 63
        \<and> - (2 ^ 63) \<le> rect_x (area label) + rect_width (area label)
        \<and> rect_x (area label) + rect_width (area label) < 2 ^ 63
        \<and> - (2 ^ 63) \<le> rect_y (area label) + rect_height (area label)
        \<and> rect_y (area label) + rect_height (area label) < 2 ^ 63
        \<and> (x + width < rect_x (area label) \<or> y + height < rect_y (area label)
           \<or> rect_x (area label) + rect_width (area label) < x
           \<or> rect_y (area label) + rect_height (area label) < y))"
  shows "draw_control label pixel_buffer x y width height
         = Some (Inr (argb32_data pixel_buffer, []))"
proof -
  consider (hidden) "is_hidden label"
    | (empty) "rect_height (buffer_size pixel_buffer) = 0"
    | (apart) "- (2 ^ 63) \<le> x + width" "x + width < 2 ^ 63"
        "- (2 ^ 63) \<le> y + height" "y + height < 2 ^ 63"
        "- (2 ^ 63) \<le> rect_x (area label) + rect_width (area label)"
        "rect_x (area label) + rect_width (area label) < 2 ^ 63"
        "- (2 ^ 63) \<le> rect_y (area label) + rect_height (area label)"
        "rect_y (area label) + rect_height (area label) < 2 ^ 63"
        "x + width < rect_x (area label) \<or> y + height < rect_y (area label)
           \<or> rect_x (area label) + rect_width (area label) < x
           \<or> rect_y (area label) + rect_height (area label) < y"
    using assms by blast
  then show ?thesis
  proof cases
    case hidden
    then show ?thesis by (simp add: draw_control_def)
  next
    case empty
    then show ?thesis by (simp add: draw_control_def)
  next
    case apart
    have "to_long (x + to_long width) = x + width"
      "to_long (y + to_long height) = y + height"
      "to_long (rect_x (area label) + to_long (rect_width (area label)))
         = rect_x (area label) + rect_width (area label)"
      "to_long (rect_y (area label) + to_long (rect_height (area label)))
         = rect_y (area label) + rect_height (area label)"
      unfolding to_long_add_to_long using apart(1-8) by (simp_all add: to_long_id)
    with apart(9) show ?thesis
      by (auto simp: draw_control_def)
  qed
qed

theorem draw_control_no_writes_witness:
  "draw_control drawn_label example_buffer 11 0 5 5
   = Some (Inr (argb32_data example_buffer, []))"
proof -
  have "is_hidden drawn_label \<or> rect_height (buffer_size example_buffer) = 0
     \<or> (- (2 ^ 63) \<le> (11 :: int) + 5 \<and> (11 :: int) + 5 < 2 ^ 63
        \<and> - (2 ^ 63) \<le> (0 :: int) + 5 \<and> (0 :: int) + 5 < 2 ^ 63
        \<and> - (2 ^ 63) \<le> rect_x (area drawn_label) + rect_width (area drawn_label)
        \<and> rect_x (area drawn_label) + rect_width (area drawn_label) < 2 ^ 63
        \<and> - (2 ^ 63) \<le> rect_y (area drawn_label) + rect_height (area drawn_label)
        \<and> rect_y (area drawn_label) + rect_height (area drawn_label) < 2 ^ 63
        \<and> (11 + 5 < rect_x (area drawn_label) \<or> 0 + 5 < rect_y (area drawn_label)
           \<or> rect_x (area drawn_label) + rect_width (area drawn_label) < 11
           \<or> rect_y (area drawn_label) + rect_height (area drawn_label) < 0))"
    by (simp add: drawn_label_fields)
  then show ?thesis
    by (rule draw_control_no_writes)
qed

text \<open>
  The box covers the columns 0 to 9 and the rectangle to draw starts at the column 10:
  they only touch, and \<open>draw_control\<close> draws the glyph.
\<close>

theorem draw_control_touching_clip_counterexample:
  "draw_control drawn_label example_buffer 10 0 5 5
   = Some (Inr ((argb32_data example_buffer)(1000 := 0xFFFFFFFF), [(1000, 0xFFFFFFFF)]))"
proof -
  have b: "argb32_data example_buffer = (\<lambda>i. 0)"
    "rect_height (buffer_size example_buffer) = 100"
    by (simp_all add: example_buffer_def)
  have m: "ascender face_plain = 640" "metrics_height face_plain = 832"
    by (simp_all add: face_plain_def)
  have l: "draw_control_lines drawn_label (buffer_size example_buffer) 640 ''a'' (\<lambda>i. 0, [])
           = Some ((\<lambda>i. 0)(1000 := 0xFFFFFFFF), [(1000, 0xFFFFFFFF)])"
    by (subst draw_control_lines.simps)
       (simp add: drawn_label_fields to_long_def m draw_control_line_example draw_control_lines_Nil)
  show ?thesis
    by (simp add: draw_control_def drawn_label_fields b m to_long_def l)
qed

lemma draw_control_line_returns:
  assumes "draw_control_line label tgt_size pen_x pen_y cur_c tg = Some r"
  shows "(\<forall>c \<in> set (takeWhile (\<lambda>c. c \<noteq> CHR 0x0A) cur_c). FT_Load_Char (face label) c \<noteq> None)
         \<and> fst (snd (snd r)) = dropWhile (\<lambda>c. c \<noteq> CHR 0x0A) cur_c"
  using assms
proof (induction rule: draw_control_line.raw_induct [rotated 1, consumes 1])
  case (1 loop label tgt_size pen_x pen_y cur_c tg r)
  show ?case
  proof (cases cur_c)
    case Nil
    with 1(2) show ?thesis by auto
  next
    case (Cons c rest)
    show ?thesis
    proof (cases "c = CHR 0x0A")
      case True
      with Cons 1(2) show ?thesis by auto
    next
      case nl: False
      show ?thesis
      proof (cases "FT_Load_Char (face label) c")
        case None
        with 1(2) Cons nl have "loop label tgt_size pen_x pen_y cur_c tg = Some r" by simp
        then show ?thesis by (rule "1.IH")
      next
        case (Some slot)
        with 1(2) Cons nl obtain pen_x1 pen_y1 tg1 where
          "loop label tgt_size pen_x1 pen_y1 rest tg1 = Some r"
          by (auto simp: Let_def)
        from "1.IH" [OF this] Cons nl Some show ?thesis by simp
      qed
    qed
  qed
qed

lemma draw_control_lines_returns:
  assumes "draw_control_lines label tgt_size pen_y cur_c tg = Some r"
  shows "\<forall>c \<in> set cur_c. c \<noteq> CHR 0x0A \<longrightarrow> FT_Load_Char (face label) c \<noteq> None"
  using assms
proof (induction rule: draw_control_lines.raw_induct [rotated 1, consumes 1])
  case (1 loop label tgt_size pen_y cur_c tg r)
  show ?case
  proof (cases cur_c)
    case Nil
    then show ?thesis by simp
  next
    case (Cons c0 rest)
    with 1(2) obtain pen_x ln where
      ln: "draw_control_line label tgt_size pen_x pen_y cur_c tg = Some ln"
      and rec: "loop label tgt_size (to_long (fst (snd ln) + metrics_height (face label)))
                  (case fst (snd (snd ln)) of [] \<Rightarrow> [] | nl # after \<Rightarrow> after)
                  (snd (snd (snd ln))) = Some r"
      by (auto simp: Let_def split: bind_splits prod.splits)
    from draw_control_line_returns [OF ln]
    have first: "\<forall>c \<in> set (takeWhile (\<lambda>c. c \<noteq> CHR 0x0A) cur_c). FT_Load_Char (face label) c \<noteq> None"
      and cur1: "fst (snd (snd ln)) = dropWhile (\<lambda>c. c \<noteq> CHR 0x0A) cur_c"
      by simp_all
    from "1.IH" [OF rec] cur1
    have later: "\<forall>c \<in> set (case dropWhile (\<lambda>c. c \<noteq> CHR 0x0A) cur_c of [] \<Rightarrow> [] | nl # after \<Rightarrow> after).
                   c \<noteq> CHR 0x0A \<longrightarrow> FT_Load_Char (face label) c \<noteq> None"
      by simp
    show ?thesis
    proof (intro ballI impI)
      fix c assume c: "c \<in> set cur_c" and cn: "c \<noteq> CHR 0x0A"
      have "set cur_c = set (takeWhile (\<lambda>c. c \<noteq> CHR 0x0A) cur_c)
                        \<union> set (dropWhile (\<lambda>c. c \<noteq> CHR 0x0A) cur_c)"
        by (metis set_append takeWhile_dropWhile_id)
      with c consider (a) "c \<in> set (takeWhile (\<lambda>c. c \<noteq> CHR 0x0A) cur_c)"
        | (b) "c \<in> set (dropWhile (\<lambda>c. c \<noteq> CHR 0x0A) cur_c)"
        by blast
      then show "FT_Load_Char (face label) c \<noteq> None"
      proof cases
        case a
        with first show ?thesis by blast
      next
        case b
        then obtain nl after where d: "dropWhile (\<lambda>c. c \<noteq> CHR 0x0A) cur_c = nl # after"
          by (cases "dropWhile (\<lambda>c. c \<noteq> CHR 0x0A) cur_c") auto
        then have "nl = CHR 0x0A"
          using hd_dropWhile [of "\<lambda>c. c \<noteq> CHR 0x0A" cur_c] by auto
        with b d cn have "c \<in> set after" by auto
        with later d cn show ?thesis by simp
      qed
    qed
  qed
qed

text \<open>
  C2 (\<open>draw_control\<close>, a failing glyph load): when the label is drawn and a character
  of its text fails to load, \<^verbatim>\<open>continue\<close> goes back to the test of the inner loop
  without advancing \<^verbatim>\<open>cur_c\<close>, the same character is loaded again, and
  \<open>draw_control\<close> never returns. The character is not skipped and drawing does not
  go on with the next one.
\<close>

theorem draw_control_failing_load_no_return:
  assumes "\<not> is_hidden label"
    and "\<not> (rect_x (area label) > to_long (x + to_long width)
            \<or> rect_y (area label) > to_long (y + to_long height)
            \<or> to_long (rect_x (area label) + to_long (rect_width (area label))) < x
            \<or> to_long (rect_y (area label) + to_long (rect_height (area label))) < y)"
    and "rect_height (buffer_size pixel_buffer) \<noteq> 0"
    and "label_text label = Some str"
    and "c \<in> set str" and "c \<noteq> CHR 0x0A" and "FT_Load_Char (face label) c = None"
  shows "draw_control label pixel_buffer x y width height = None"
proof (cases "draw_control_lines label (buffer_size pixel_buffer)
                (to_long (to_long (rect_y (area label) * 64) + ascender (face label)))
                str (argb32_data pixel_buffer, [])")
  case None
  with assms(1-4) show ?thesis by (simp add: draw_control_def)
next
  case (Some r)
  from draw_control_lines_returns [OF this] assms(5-7) show ?thesis by blast
qed

theorem draw_control_failing_load_no_return_witness:
  "\<not> is_hidden label_without_b
   \<and> label_text label_without_b = Some ''ab''
   \<and> FT_Load_Char (face label_without_b) (CHR ''b'') = None
   \<and> draw_control label_without_b example_buffer 0 0 100 100 = None"
proof -
  have f: "is_hidden label_without_b = False" "label_text label_without_b = Some ''ab''"
    "face label_without_b = face_without_b"
    "area label_without_b = \<lparr>rect_x = 0, rect_y = 0, rect_width = 10, rect_height = 12\<rparr>"
    by (simp_all add: label_without_b_def create_control_def)
  have v: "\<not> is_hidden label_without_b"
    by (simp add: f)
  have o: "\<not> (rect_x (area label_without_b) > to_long (0 + to_long 100)
            \<or> rect_y (area label_without_b) > to_long (0 + to_long 100)
            \<or> to_long (rect_x (area label_without_b) + to_long (rect_width (area label_without_b))) < 0
            \<or> to_long (rect_y (area label_without_b) + to_long (rect_height (area label_without_b))) < 0)"
    by (simp add: f to_long_def)
  have h: "rect_height (buffer_size example_buffer) \<noteq> 0"
    by (simp add: example_buffer_def)
  have m: "CHR ''b'' \<in> set ''ab''" "CHR ''b'' \<noteq> CHR 0x0A"
    by simp_all
  have n: "FT_Load_Char (face label_without_b) (CHR ''b'') = None"
    by (simp add: f face_without_b_def)
  from draw_control_failing_load_no_return [OF v o h f(2) m n] v f(2) n
  show ?thesis by blast
qed

end
